theory Spec2Isabelle
  imports Complex_Main "HOL-Library.Sublist" "HOL-Library.List_Lexorder" "HOL-Library.Char_ord"
    "HOL-Library.Log_Nat"
begin

section \<open>Python values shared by both scripts\<close>

text \<open>
  Strings are lists of code points. Isabelle's \<open>char\<close> has 256 values, so the model
  covers the strings whose code points lie below 256; \<open>isspace\<close> and \<open>isalnum\<close>
  are Python's \<^verbatim>\<open>str.isspace\<close> and \<^verbatim>\<open>str.isalnum\<close> on that range.
  Instants (\<^verbatim>\<open>datetime\<close> values with a UTC offset) are integers: microseconds since the
  epoch. \<^verbatim>\<open>isoformat\<close> followed by \<^verbatim>\<open>fromisoformat\<close> gives the instant back,
  so a persisted instant is stored as that integer.
\<close>

type_synonym instant = int

datatype error = KeyError | FileNotFoundError | ValueError

definition digit_char :: "nat \<Rightarrow> char" where
  "digit_char d = char_of (48 + d)"

fun digits :: "nat \<Rightarrow> string" where
  "digits n = (if n < 10 then [digit_char n] else digits (n div 10) @ [digit_char (n mod 10)])"

declare digits.simps [simp del]

text \<open>\<^verbatim>\<open>str(i)\<close> for an integer, also what an f-string prints for it.\<close>

definition str_int :: "int \<Rightarrow> string" where
  "str_int i = (if i < 0 then CHR ''-'' # digits (nat (- i)) else digits (nat i))"

definition isspace :: "char \<Rightarrow> bool" where
  "isspace c = (of_char c \<in> {9, 10, 11, 12, 13, 28, 29, 30, 31, 32, 133, 160 :: nat})"

definition lstrip :: "string \<Rightarrow> string" where
  "lstrip s = dropWhile isspace s"

definition rstrip :: "string \<Rightarrow> string" where
  "rstrip s = rev (dropWhile isspace (rev s))"

definition strip :: "string \<Rightarrow> string" where
  "strip s = rstrip (lstrip s)"

text \<open>\<^verbatim>\<open>s.split(c)\<close> with a separator of one character: never the empty list.\<close>

fun split_on :: "char \<Rightarrow> string \<Rightarrow> string list" where
  "split_on c [] = [[]]"
| "split_on c (x # xs) =
     (if x = c then [] # split_on c xs
      else (case split_on c xs of [] \<Rightarrow> [[x]] | p # ps \<Rightarrow> (x # p) # ps))"

text \<open>\<^verbatim>\<open>sep.join(parts)\<close>.\<close>

fun join :: "string \<Rightarrow> string list \<Rightarrow> string" where
  "join sep [] = []"
| "join sep [p] = p"
| "join sep (p # q # ps) = p @ sep @ join sep (q # ps)"

definition newline :: char where
  "newline = char_of (10 :: nat)"

section \<open>checker.py: the data\<close>

text \<open>
  A key read with \<^verbatim>\<open>.get(key, default)\<close> or tested with \<^verbatim>\<open>in\<close> is an optional
  field; a key read with \<^verbatim>\<open>d[key]\<close> is a field of the record, except \<^verbatim>\<open>topics\<close>
  of the state, which the code reads both ways. \<open>chat_id\<close> is
  \<^verbatim>\<open>msg.get("chat", {}).get("id")\<close>. The field \<open>date\<close> of a message is the time
  Telegram gives the message; checker.py never reads it.
\<close>

record user =
  is_bot :: "bool option"
  first_name :: "string option"

record message =
  chat_id :: "int option"
  message_thread_id :: "int option"
  from_user :: "user option"
  date :: "instant option"

record update =
  update_id :: int
  message :: "message option"

record topic_pair =
  pbp_topic_id :: int
  chat_topic_id :: int
  name :: string

record config =
  group_id :: int
  alert_after_hours :: "int option"
  topic_pairs :: "topic_pair list"

record topic_state =
  last_message_time :: instant
  last_user :: "string option"
  campaign_name :: string

record state =
  offset :: "int option"
  topics :: "(string \<rightharpoonup> topic_state) option"
  last_alerts :: "(string \<rightharpoonup> instant) option"

text \<open>
  The environment: \<open>clock k\<close> is what the \<open>k\<close>-th call of
  \<^verbatim>\<open>datetime.now(timezone.utc)\<close> of the run returns, and the functions that read the
  clock count the calls.
\<close>

type_synonym clock = "nat \<Rightarrow> instant"

section \<open>checker.py: process\_updates\<close>

text \<open>The dictionary \<^verbatim>\<open>pbp_topic_ids\<close> built by the first loop: a later pair overwrites.\<close>

definition pbp_topic_ids :: "config \<Rightarrow> (string \<rightharpoonup> string)" where
  "pbp_topic_ids cfg =
     fold (\<lambda>pair m. m(str_int (pbp_topic_id pair) \<mapsto> name pair)) (topic_pairs cfg) Map.empty"

definition no_user :: user where
  "no_user = \<lparr>is_bot = None, first_name = None\<rparr>"

text \<open>
  The body of the loop after the line that advances \<^verbatim>\<open>new_offset\<close>: every
  \<^verbatim>\<open>continue\<close> leaves the state as it is; the assignment reads the clock, then
  raises KeyError when the state has no \<^verbatim>\<open>topics\<close>. The state is returned in
  every case, since the dictionary is mutated in place.
\<close>

definition track_update ::
  "clock \<Rightarrow> int \<Rightarrow> (string \<rightharpoonup> string) \<Rightarrow> update \<Rightarrow> nat \<Rightarrow> state \<Rightarrow> error option \<times> state \<times> nat" where
  "track_update clk gid ids u k st =
     (case message u of
        None \<Rightarrow> (None, st, k)
      | Some msg \<Rightarrow>
          if chat_id msg \<noteq> Some gid then (None, st, k)
          else (case message_thread_id msg of
             None \<Rightarrow> (None, st, k)
           | Some thread_id \<Rightarrow>
               (case ids (str_int thread_id) of
                  None \<Rightarrow> (None, st, k)
                | Some cname \<Rightarrow>
                    let sender = (case from_user msg of None \<Rightarrow> no_user | Some fu \<Rightarrow> fu) in
                    if is_bot sender = Some True then (None, st, k)
                    else
                      let user_name = (case first_name sender of None \<Rightarrow> ''Someone'' | Some n \<Rightarrow> n);
                          entry = \<lparr>last_message_time = clk k, last_user = Some user_name,
                                   campaign_name = cname\<rparr>
                      in (case topics st of
                            None \<Rightarrow> (Some KeyError, st, Suc k)
                          | Some tp \<Rightarrow>
                              (None, st\<lparr>topics := Some (tp(str_int thread_id \<mapsto> entry))\<rparr>, Suc k)))))"

fun process_loop ::
  "clock \<Rightarrow> int \<Rightarrow> (string \<rightharpoonup> string) \<Rightarrow> update list \<Rightarrow> nat \<Rightarrow> int \<Rightarrow> state
     \<Rightarrow> (error + int) \<times> state \<times> nat" where
  "process_loop clk gid ids [] k new_offset st = (Inr new_offset, st, k)"
| "process_loop clk gid ids (u # us) k new_offset st =
     (let new_offset' = max new_offset (update_id u + 1) in
      case track_update clk gid ids u k st of
        (Some e, st', k') \<Rightarrow> (Inl e, st', k')
      | (None, st', k') \<Rightarrow> process_loop clk gid ids us k' new_offset' st')"

definition process_updates ::
  "clock \<Rightarrow> nat \<Rightarrow> update list \<Rightarrow> config \<Rightarrow> state \<Rightarrow> (error + int) \<times> state \<times> nat" where
  "process_updates clk k updates cfg st =
     process_loop clk (group_id cfg) (pbp_topic_ids cfg) updates k
       (case offset st of None \<Rightarrow> 0 | Some n \<Rightarrow> n) st"

text \<open>
  The filters of the loop as one predicate: the update carries a message, of the configured
  group, with a thread id that is a key of \<^verbatim>\<open>pbp_topic_ids\<close>, and not sent by a bot.
\<close>

definition passes_filters :: "int \<Rightarrow> (string \<rightharpoonup> string) \<Rightarrow> update \<Rightarrow> bool" where
  "passes_filters gid ids u =
     (case message u of
        None \<Rightarrow> False
      | Some msg \<Rightarrow>
          chat_id msg = Some gid \<and>
          (case message_thread_id msg of
             None \<Rightarrow> False
           | Some thread_id \<Rightarrow> ids (str_int thread_id) \<noteq> None) \<and>
          (case from_user msg of None \<Rightarrow> True | Some fu \<Rightarrow> is_bot fu \<noteq> Some True))"

text \<open>
  The thread id of the message of an update, and the name that the loop records for the
  sender: \<^verbatim>\<open>msg.get("from", {}).get("first_name", "Someone")\<close>.
\<close>

definition thread_of :: "update \<Rightarrow> int option" where
  "thread_of u = (case message u of None \<Rightarrow> None | Some msg \<Rightarrow> message_thread_id msg)"

definition sender_name :: "message \<Rightarrow> string" where
  "sender_name msg =
     (case from_user msg of
        None \<Rightarrow> ''Someone''
      | Some fu \<Rightarrow> (case first_name fu of None \<Rightarrow> ''Someone'' | Some n \<Rightarrow> n))"

section \<open>checker.py: check\_and\_alert and main\<close>

text \<open>
  \<open>send k chat thread text\<close> is what the \<open>k\<close>-th call of \<^verbatim>\<open>send_message\<close> of
  the run returns. Each call is logged with its arguments and its result; \<open>sent_for\<close> is
  the key \<^verbatim>\<open>pbp_id_str\<close> of the pair the alert was built for, kept by the model to
  tell the alerts of different topics apart.
\<close>

type_synonym transport = "nat \<Rightarrow> int \<Rightarrow> int \<Rightarrow> string \<Rightarrow> bool"

record sent =
  sent_for :: string
  sent_chat :: int
  sent_thread :: int
  sent_text :: string
  sent_ok :: bool

text \<open>
  Durations are differences of instants, in microseconds. The source divides
  \<^verbatim>\<open>total_seconds()\<close> by 3600 in floating point, and so does the model. A double is
  kept as the rational number it denotes. \<open>to_double q\<close> is the double nearest to the
  rational \<open>q\<close>, ties to the even significand: with \<open>binade q\<close> the exponent of
  the power of two at or below a positive \<open>q\<close>, the significand is \<open>q\<close> scaled into
  \<open>[2^52, 2^53)\<close> and rounded to an integer. The exponent range of a double is not
  bounded in the model: no difference of two \<^verbatim>\<open>datetime\<close> values, and no quotient of
  one, leaves it.

  \<^verbatim>\<open>total_seconds()\<close> divides the integer count of microseconds by \<^verbatim>\<open>10**6\<close>, a
  division of integers that Python rounds correctly; the division by 3600 is the
  division of doubles, rounded correctly as well. \<open>elapsed_hours d\<close> is
  \<^verbatim>\<open>d.total_seconds() / 3600\<close>. \<open>hours_lt d h\<close> is
  \<^verbatim>\<open>d.total_seconds() / 3600 < h\<close>, a comparison of a double with an integer, which
  Python decides exactly, and \<open>int_hours d\<close> is \<^verbatim>\<open>int(d.total_seconds() / 3600)\<close>,
  which truncates towards zero.
\<close>

definition hour :: int where
  "hour = 3600000000"

definition round_half_even :: "rat \<Rightarrow> int" where
  "round_half_even x = (let f = \<lfloor>x\<rfloor>; r = x - of_int f in
     if r < 1 / 2 then f else if 1 / 2 < r then f + 1 else if even f then f else f + 1)"

definition binade :: "rat \<Rightarrow> int" where
  "binade q = (case quotient_of q of (a, b) \<Rightarrow>
     let t = bitlen a - bitlen b in if 2 powi t \<le> q then t else t - 1)"

definition to_double :: "rat \<Rightarrow> rat" where
  "to_double q = (if q = 0 then 0 else
     let e = binade \<bar>q\<bar> - 52 in
     sgn q * of_int (round_half_even (\<bar>q\<bar> / 2 powi e)) * 2 powi e)"

text \<open>Half the distance between two neighbouring doubles, relative to their size.\<close>

definition ulp_half :: rat where
  "ulp_half = 1 / 2 ^ 53"

definition total_seconds :: "int \<Rightarrow> rat" where
  "total_seconds d = to_double (of_int d / 1000000)"

definition elapsed_hours :: "int \<Rightarrow> rat" where
  "elapsed_hours d = to_double (total_seconds d / 3600)"

definition hours_lt :: "int \<Rightarrow> int \<Rightarrow> bool" where
  "hours_lt d h = (elapsed_hours d < of_int h)"

definition int_hours :: "int \<Rightarrow> int" where
  "int_hours d = (let x = elapsed_hours d in if 0 \<le> x then \<lfloor>x\<rfloor> else - \<lfloor>- x\<rfloor>)"

definition time_str :: "int \<Rightarrow> string" where
  "time_str hours_int =
     (let days = hours_int div 24;
          remaining_hours = hours_int mod 24
      in if days > 0 then str_int days @ ''d '' @ str_int remaining_hours @ ''h''
         else str_int hours_int @ ''h'')"

definition alert_message :: "string \<Rightarrow> string \<Rightarrow> string \<Rightarrow> string" where
  "alert_message nm ts lu =
     ''No new posts in '' @ nm @ '' PBP for '' @ ts @ ''.'' @ [newline] @
     ''Last post was from '' @ lu @ ''.''"

definition tracked :: "state \<Rightarrow> string \<rightharpoonup> topic_state" where
  "tracked st = (case topics st of None \<Rightarrow> Map.empty | Some tp \<Rightarrow> tp)"

definition alerts :: "state \<Rightarrow> string \<rightharpoonup> instant" where
  "alerts st = (case last_alerts st of None \<Rightarrow> Map.empty | Some la \<Rightarrow> la)"

text \<open>
  One turn of the loop over the topic pairs. The loop runs after \<^verbatim>\<open>last_alerts\<close> has
  been created when missing, so \<open>alerts\<close> reads a mapping that is there.
\<close>

definition check_pair ::
  "transport \<Rightarrow> instant \<Rightarrow> int \<Rightarrow> int \<Rightarrow> topic_pair \<Rightarrow> state \<times> sent list \<Rightarrow> state \<times> sent list" where
  "check_pair send now gid alert_hours pair = (\<lambda>(st, log).
     let pbp_id_str = str_int (pbp_topic_id pair) in
     case tracked st pbp_id_str of
       None \<Rightarrow> (st, log)
     | Some topic_state \<Rightarrow>
         let elapsed = now - last_message_time topic_state in
         if hours_lt elapsed alert_hours then (st, log)
         else if (case alerts st pbp_id_str of
                    None \<Rightarrow> False
                  | Some last_alert \<Rightarrow> hours_lt (now - last_alert) alert_hours)
         then (st, log)
         else
           let hours_int = int_hours elapsed;
               user_name = (case last_user topic_state of None \<Rightarrow> ''someone'' | Some u \<Rightarrow> u);
               text = alert_message (name pair) (time_str hours_int) user_name;
               ok = send (length log) gid (chat_topic_id pair) text;
               log' = log @ [\<lparr>sent_for = pbp_id_str, sent_chat = gid,
                               sent_thread = chat_topic_id pair, sent_text = text, sent_ok = ok\<rparr>]
           in if ok then (st\<lparr>last_alerts := Some ((alerts st)(pbp_id_str \<mapsto> now))\<rparr>, log')
              else (st, log'))"

text \<open>\<^verbatim>\<open>config.get("alert_after_hours", 4)\<close>.\<close>

definition alert_hours :: "config \<Rightarrow> int" where
  "alert_hours cfg = (case alert_after_hours cfg of None \<Rightarrow> 4 | Some h \<Rightarrow> h)"

definition check_and_alert ::
  "transport \<Rightarrow> instant \<Rightarrow> config \<Rightarrow> state \<Rightarrow> state \<times> sent list" where
  "check_and_alert send now cfg st =
     (let st1 = (if last_alerts st = None then st\<lparr>last_alerts := Some Map.empty\<rparr> else st)
      in fold (check_pair send now (group_id cfg) (alert_hours cfg)) (topic_pairs cfg) (st1, []))"

text \<open>
  The elapsed-time component in the words of the specification: the duration floored to
  whole hours, as days and hours from 24 hours on, as hours below.
\<close>

definition elapsed_component :: "int \<Rightarrow> string" where
  "elapsed_component d =
     (let hours = d div hour
      in if 24 * hour \<le> d then str_int (hours div 24) @ ''d '' @ str_int (hours mod 24) @ ''h''
         else str_int hours @ ''h'')"

text \<open>
  The part of \<^verbatim>\<open>main\<close> between loading and saving the state, given the updates that
  \<^verbatim>\<open>get_updates\<close> fetched: a KeyError of process\_updates ends the run.
\<close>

definition main_body ::
  "clock \<Rightarrow> transport \<Rightarrow> update list \<Rightarrow> config \<Rightarrow> state \<Rightarrow> error + state \<times> sent list" where
  "main_body clk send updates cfg st =
     (if updates \<noteq> [] then
        (case process_updates clk 0 updates cfg st of
           (Inl e, st', k) \<Rightarrow> Inl e
         | (Inr new_offset, st', k) \<Rightarrow>
             Inr (check_and_alert send (clk k) cfg (st'\<lparr>offset := Some new_offset\<rparr>)))
      else Inr (check_and_alert send (clk 0) cfg st))"

section \<open>import\_history.py: messages of an export\<close>

text \<open>
  A message of the export is a dictionary; every key is read with \<^verbatim>\<open>.get\<close>, so every
  field is optional, and a field that is there has the type the Telegram export gives it.
  The export gives \<^verbatim>\<open>from\<close> the value \<^verbatim>\<open>null\<close> for a deleted account: \<open>m_from\<close> is
  \<open>None\<close> when the key is missing and \<open>Some None\<close> when it is \<^verbatim>\<open>null\<close>.
  The value of \<^verbatim>\<open>text\<close> is a string, a list, or something else (\<open>NoText\<close>); an
  element of the list, or of \<^verbatim>\<open>text_entities\<close>, is a string, a dictionary with
  optional \<^verbatim>\<open>type\<close> and \<^verbatim>\<open>text\<close>, or something else.
\<close>

datatype chunk = Plain string | Span "string option" "string option" | Other

datatype text_field = Text string | Chunks "chunk list" | NoText

record export_msg =
  m_id :: "int option"
  m_type :: "string option"
  m_message_thread_id :: "int option"
  m_reply_to_message_id :: "int option"
  m_action :: "string option"
  m_date :: "string option"
  m_from :: "string option option"
  m_from_id :: "string option"
  m_text :: "text_field option"
  m_text_entities :: "chunk list option"
  m_media_type :: "string option"
  m_sticker_emoji :: "string option"
  m_photo :: "string option"
  m_file :: "string option"

text \<open>Truth value of an optional string: there and not empty.\<close>

definition truthy :: "string option \<Rightarrow> bool" where
  "truthy v = (case v of None \<Rightarrow> False | Some s \<Rightarrow> s \<noteq> [])"

text \<open>What the loop over the list of \<^verbatim>\<open>text\<close> appends for one element.\<close>

fun chunk_part :: "chunk \<Rightarrow> string option" where
  "chunk_part (Plain s) = Some s"
| "chunk_part (Span ty txt) = Some (case txt of None \<Rightarrow> [] | Some s \<Rightarrow> s)"
| "chunk_part Other = None"

text \<open>What the comprehension over \<^verbatim>\<open>text_entities\<close> keeps for one element.\<close>

fun entity_part :: "chunk \<Rightarrow> string option" where
  "entity_part (Span ty txt) = Some (case txt of None \<Rightarrow> [] | Some s \<Rightarrow> s)"
| "entity_part (Plain s) = None"
| "entity_part Other = None"

definition extract_text :: "export_msg \<Rightarrow> string" where
  "extract_text msg =
     (let raw = (case m_text msg of None \<Rightarrow> Text [] | Some r \<Rightarrow> r);
          early = (case raw of
                     Text s \<Rightarrow> if strip s \<noteq> [] then Some (strip s) else None
                   | Chunks cs \<Rightarrow>
                       if cs \<noteq> [] then
                         (let result = strip (concat (List.map_filter chunk_part cs))
                          in if result \<noteq> [] then Some result else None)
                       else None
                   | NoText \<Rightarrow> None)
      in case early of
           Some r \<Rightarrow> r
         | None \<Rightarrow>
             (let entities = (case m_text_entities msg of None \<Rightarrow> [] | Some es \<Rightarrow> es)
              in if entities \<noteq> [] then strip (concat (List.map_filter entity_part entities))
                 else []))"

definition detect_media :: "export_msg \<Rightarrow> string option" where
  "detect_media msg =
     (let media_type = m_media_type msg in
      if media_type = Some ''animation'' then Some ''gif''
      else if media_type = Some ''video_file'' then Some ''video''
      else if media_type = Some ''voice_message'' then Some ''voice message''
      else if media_type = Some ''video_message'' then Some ''video note''
      else if media_type = Some ''sticker'' then
        Some (''sticker:'' @ (case m_sticker_emoji msg of None \<Rightarrow> ''?'' | Some emoji \<Rightarrow> emoji))
      else if truthy (m_photo msg) then Some ''image''
      else if truthy (m_file msg) \<and> \<not> truthy media_type then
        Some (''document:'' @
              last (split_on CHR ''/'' (case m_file msg of None \<Rightarrow> [] | Some f \<Rightarrow> f)))
      else None)"

definition format_entry :: "export_msg \<Rightarrow> bool \<Rightarrow> string" where
  "format_entry msg is_gm =
     (let date_str = (case m_date msg of None \<Rightarrow> [] | Some d \<Rightarrow> d);
          ts = map (\<lambda>c. if c = CHR ''T'' then CHR '' '' else c) (take 19 date_str);
          nm = (case m_from msg of
                  None \<Rightarrow> ''Unknown''
                | Some None \<Rightarrow> ''None''
                | Some (Some n) \<Rightarrow> n);
          role_tag = (if is_gm then '' [GM]'' else []);
          text = extract_text msg;
          media_parts =
            (case detect_media msg of
               None \<Rightarrow> []
             | Some media \<Rightarrow>
                 if media = [] then []
                 else if prefix ''sticker:'' media then [''*[sticker '' @ drop 8 media @ '']*'']
                 else if prefix ''document:'' media then [''*['' @ drop 9 media @ '']*'']
                 else [''*['' @ media @ '']*'']);
          parts = media_parts @ (if text \<noteq> [] then [text] else []);
          content = (if parts \<noteq> [] then join '' '' parts else ''*[empty message]*'')
      in ''**'' @ nm @ ''**'' @ role_tag @ '' ('' @ ts @ ''):'' @ [newline] @ content @ [newline])"

section \<open>import\_history.py: configuration and files\<close>

record import_pair =
  ip_name :: string
  ip_pbp_topic_ids :: "int list option"
  ip_gm_user_ids :: "int list option"

record import_config =
  ic_gm_user_ids :: "int list option"
  ic_topic_pairs :: "import_pair list option"

definition pairs_of :: "import_config \<Rightarrow> import_pair list" where
  "pairs_of cfg = (case ic_topic_pairs cfg of None \<Rightarrow> [] | Some ps \<Rightarrow> ps)"

definition build_thread_map :: "import_config \<Rightarrow> (int \<rightharpoonup> string)" where
  "build_thread_map cfg =
     fold (\<lambda>pair mapping.
             fold (\<lambda>tid m. m(tid \<mapsto> ip_name pair))
               (case ip_pbp_topic_ids pair of None \<Rightarrow> [] | Some tids \<Rightarrow> tids) mapping)
       (pairs_of cfg) Map.empty"

definition build_gm_map :: "import_config \<Rightarrow> (string \<rightharpoonup> string set)" where
  "build_gm_map cfg =
     (let global_gms = set (map str_int (case ic_gm_user_ids cfg of None \<Rightarrow> [] | Some us \<Rightarrow> us))
      in fold (\<lambda>pair gm_map.
                 gm_map(ip_name pair \<mapsto>
                   (case ip_gm_user_ids pair of
                      Some us \<Rightarrow> set (map str_int us)
                    | None \<Rightarrow> global_gms)))
           (pairs_of cfg) Map.empty)"

definition isalnum :: "char \<Rightarrow> bool" where
  "isalnum c =
     (let n = (of_char c :: nat)
      in (48 \<le> n \<and> n \<le> 57) \<or> (65 \<le> n \<and> n \<le> 90) \<or> (97 \<le> n \<and> n \<le> 122) \<or> n = 170 \<or>
         n = 178 \<or> n = 179 \<or> n = 181 \<or> n = 185 \<or> n = 186 \<or> (188 \<le> n \<and> n \<le> 190) \<or>
         (192 \<le> n \<and> n \<le> 214) \<or> (216 \<le> n \<and> n \<le> 246) \<or> 248 \<le> n)"

definition sanitize_dirname :: "string \<Rightarrow> string" where
  "sanitize_dirname nm =
     map (\<lambda>c. if c = CHR '' '' then CHR ''_'' else c)
       (strip (filter (\<lambda>c. isalnum c \<or> c = CHR '' '' \<or> c = CHR ''-'' \<or> c = CHR ''_'') nm))"

text \<open>
  The files under \<^verbatim>\<open>LOGS_DIR\<close>: the campaign directories that exist, and the content
  of each file, under the name of its directory and its own name. A transcript is kept as
  the bytes of the file; the tracking file is kept as the text that \<^verbatim>\<open>read_text\<close>
  returns and \<^verbatim>\<open>write_text\<close> is given.
\<close>

record fs =
  dirs :: "string set"
  files :: "string \<times> string \<rightharpoonup> string"

definition tracker :: "string \<Rightarrow> string \<times> string" where
  "tracker campaign_dir = (campaign_dir, ''.imported_ids'')"

definition get_imported_ids :: "fs \<Rightarrow> string \<Rightarrow> string set" where
  "get_imported_ids f campaign_dir =
     (case files f (tracker campaign_dir) of
        Some text \<Rightarrow> set (split_on newline (strip text))
      | None \<Rightarrow> {})"

definition save_imported_ids :: "fs \<Rightarrow> string \<Rightarrow> string set \<Rightarrow> fs" where
  "save_imported_ids f campaign_dir ids =
     f\<lparr>files := (files f)(tracker campaign_dir \<mapsto>
          join [newline] (sorted_list_of_set ids) @ [newline])\<rparr>"

section \<open>import\_history.py: import\_messages\<close>

text \<open>\<^verbatim>\<open>d.setdefault(k, []).append(v)\<close> on a dictionary kept in insertion order.\<close>

fun setdefault_append :: "'k \<Rightarrow> 'v \<Rightarrow> ('k \<times> 'v list) list \<Rightarrow> ('k \<times> 'v list) list" where
  "setdefault_append k v [] = [(k, [v])]"
| "setdefault_append k v ((k', vs) # rest) =
     (if k = k' then (k', vs @ [v]) # rest else (k', vs) # setdefault_append k v rest)"

text \<open>The campaign of a message, or None where the first loop says \<^verbatim>\<open>continue\<close>.\<close>

definition classify :: "(int \<rightharpoonup> string) \<Rightarrow> export_msg \<Rightarrow> string option" where
  "classify thread_map msg =
     (if m_type msg \<noteq> Some ''message'' then None
      else
        let thread_id = (case m_message_thread_id msg of
                           Some t \<Rightarrow> if t \<noteq> 0 then Some t else m_reply_to_message_id msg
                         | None \<Rightarrow> m_reply_to_message_id msg)
        in case thread_id of
             None \<Rightarrow> None
           | Some t \<Rightarrow>
               (case thread_map t of
                  None \<Rightarrow> None
                | Some campaign \<Rightarrow> if truthy (m_action msg) then None else Some campaign))"

definition group_messages ::
  "(int \<rightharpoonup> string) \<Rightarrow> export_msg list \<Rightarrow> (string \<times> export_msg list) list" where
  "group_messages thread_map messages =
     fold (\<lambda>msg pbp_messages.
             case classify thread_map msg of
               None \<Rightarrow> pbp_messages
             | Some campaign \<Rightarrow> setdefault_append campaign msg pbp_messages)
       messages []"

definition msg_id :: "export_msg \<Rightarrow> string" where
  "msg_id msg = (case m_id msg of None \<Rightarrow> [] | Some i \<Rightarrow> str_int i)"

definition date_of :: "export_msg \<Rightarrow> string" where
  "date_of msg = (case m_date msg of None \<Rightarrow> [] | Some d \<Rightarrow> d)"

definition month_of :: "export_msg \<Rightarrow> string" where
  "month_of msg = take 7 (date_of msg)"

text \<open>
  The loop that fills \<^verbatim>\<open>by_month\<close>: the messages it keeps, in the order it meets them
  (sorted by date, a stable sort), and the dictionary it builds from them.
\<close>

definition new_messages :: "string set \<Rightarrow> export_msg list \<Rightarrow> export_msg list" where
  "new_messages imported_ids msgs =
     filter (\<lambda>msg. msg_id msg \<notin> imported_ids \<and> month_of msg \<noteq> []) (sort_key date_of msgs)"

definition by_month :: "export_msg list \<Rightarrow> (string \<times> export_msg list) list" where
  "by_month new = fold (\<lambda>msg acc. setdefault_append (month_of msg) msg acc) new []"

fun remove_user :: "string \<Rightarrow> string" where
  "remove_user [] = []"
| "remove_user (c # cs) =
     (if take 4 (c # cs) = ''user'' then remove_user (drop 3 cs) else c # remove_user cs)"

text \<open>
  The bytes that \<^verbatim>\<open>encoding="utf-8"\<close> writes for a string of the model, whose code
  points are below 256, and the three bytes of the dash of the header, which lies outside
  them.
\<close>

definition utf8 :: "string \<Rightarrow> string" where
  "utf8 s =
     concat (map (\<lambda>c. let n = (of_char c :: nat)
                       in if n < 128 then [c] else [char_of (192 + n div 64), char_of (128 + n mod 64)])
               s)"

definition em_dash :: string where
  "em_dash = [char_of (226 :: nat), char_of (128 :: nat), char_of (148 :: nat)]"

text \<open>
  Opening a file of the campaign directory by its name. A name that holds the character
  NUL is refused with a ValueError. A name that holds a path separator leads out of the
  campaign directory; the model keeps no directory below or beside the campaign
  directories, and the open fails with FileNotFoundError.
\<close>

definition open_error :: "string \<Rightarrow> error option" where
  "open_error file_name =
     (if char_of (0 :: nat) \<in> set file_name then Some ValueError
      else if CHR ''/'' \<in> set file_name then Some FileNotFoundError
      else None)"

text \<open>
  Appending one month's messages to its file: the open in mode \<^verbatim>\<open>a\<close>, which raises
  before anything is written, then the header of a file that was not there and one entry
  for each message.
\<close>

definition write_month ::
  "string \<Rightarrow> string \<Rightarrow> string set \<Rightarrow> string \<times> export_msg list \<Rightarrow> fs \<Rightarrow> error + fs" where
  "write_month campaign campaign_dir gm_ids = (\<lambda>(month_str, month_msgs) f.
     let log_file = (campaign_dir, month_str @ ''.md'');
         is_new = (files f log_file = None);
         old = (case files f log_file of None \<Rightarrow> [] | Some t \<Rightarrow> t);
         header = (if is_new then
                     utf8 (''# '' @ campaign @ '' '') @ em_dash @
                     utf8 ('' '' @ month_str @ [newline, newline]) @
                     utf8 (''*PBP transcript archived by PathWarsNudge bot.*'' @ [newline, newline] @
                           ''---'' @ [newline, newline])
                   else []);
         entries = concat (map (\<lambda>msg.
                      let user_id = remove_user (case m_from_id msg of None \<Rightarrow> [] | Some u \<Rightarrow> u)
                      in utf8 (format_entry msg (user_id \<in> gm_ids) @ [newline])) month_msgs)
     in case open_error (month_str @ ''.md'') of
          Some e \<Rightarrow> Inl e
        | None \<Rightarrow> Inr (f\<lparr>files := (files f)(log_file \<mapsto> old @ header @ entries)\<rparr>))"

text \<open>The loop over the months of a campaign: it ends at the first open that raises.\<close>

fun write_months ::
  "string \<Rightarrow> string \<Rightarrow> string set \<Rightarrow> (string \<times> export_msg list) list \<Rightarrow> fs \<Rightarrow>
     error option \<times> fs" where
  "write_months campaign campaign_dir gm_ids [] f = (None, f)"
| "write_months campaign campaign_dir gm_ids (month # months) f =
     (case write_month campaign campaign_dir gm_ids month f of
        Inl e \<Rightarrow> (Some e, f)
      | Inr f' \<Rightarrow> write_months campaign campaign_dir gm_ids months f')"

text \<open>
  One turn of the loop over the campaigns, with the files and the result dictionary so
  far: the exception that ended it, if any, and the files and the dictionary after it.
\<close>

definition import_campaign ::
  "bool \<Rightarrow> (string \<rightharpoonup> string set) \<Rightarrow> string \<times> export_msg list \<Rightarrow>
     fs \<times> (string \<times> nat) list \<Rightarrow> error option \<times> fs \<times> (string \<times> nat) list" where
  "import_campaign dry_run gm_map = (\<lambda>(campaign, msgs) (f, results).
     let dir_name = sanitize_dirname campaign;
         gm_ids = (case gm_map campaign of None \<Rightarrow> {} | Some g \<Rightarrow> g);
         f1 = (if \<not> dry_run then f\<lparr>dirs := insert dir_name (dirs f)\<rparr> else f);
         imported_ids = (if \<not> dry_run then get_imported_ids f1 dir_name else {});
         new = new_messages imported_ids msgs;
         new_count = length new
     in if new_count = 0 then (None, f1, results @ [(campaign, 0)])
        else if dry_run then (None, f1, results @ [(campaign, new_count)])
        else
          (case write_months campaign dir_name gm_ids (sort_key fst (by_month new)) f1 of
             (Some e, f2) \<Rightarrow> (Some e, f2, results)
           | (None, f2) \<Rightarrow>
               let new_ids = set (map msg_id new);
                   all_ids = imported_ids \<union> new_ids;
                   f3 = save_imported_ids f2 dir_name all_ids
               in (None, f3, results @ [(campaign, new_count)])))"

text \<open>The loop over the campaigns: an exception ends import\_messages.\<close>

fun import_campaigns ::
  "bool \<Rightarrow> (string \<rightharpoonup> string set) \<Rightarrow> (string \<times> export_msg list) list \<Rightarrow>
     fs \<times> (string \<times> nat) list \<Rightarrow> (error + (string \<times> nat) list) \<times> fs" where
  "import_campaigns dry_run gm_map [] (f, results) = (Inr results, f)"
| "import_campaigns dry_run gm_map (c # cs) (f, results) =
     (case import_campaign dry_run gm_map c (f, results) of
        (Some e, f', results') \<Rightarrow> (Inl e, f')
      | (None, f', results') \<Rightarrow> import_campaigns dry_run gm_map cs (f', results'))"

text \<open>
  import\_messages, given the configuration and the list \<^verbatim>\<open>export.get("messages", [])\<close>
  that it loads: the result dictionary, in the order of its keys, or the exception that
  ended the run, and the files afterwards.
\<close>

definition import_messages ::
  "import_config \<Rightarrow> export_msg list \<Rightarrow> bool \<Rightarrow> fs \<Rightarrow>
     (error + (string \<times> nat) list) \<times> fs" where
  "import_messages cfg messages dry_run f =
     (let thread_map = build_thread_map cfg;
          gm_map = build_gm_map cfg;
          pbp_messages = group_messages thread_map messages
      in if pbp_messages = [] then (Inr [], f)
         else import_campaigns dry_run gm_map (sort_key fst pbp_messages) (f, []))"

text \<open>The log entry of the call that one turn of the loop makes for a pair.\<close>

definition alert_text :: "instant \<Rightarrow> topic_pair \<Rightarrow> topic_state \<Rightarrow> string" where
  "alert_text now pair ts =
     alert_message (name pair) (time_str (int_hours (now - last_message_time ts)))
       (case last_user ts of None \<Rightarrow> ''someone'' | Some u \<Rightarrow> u)"

definition alert_for :: "instant \<Rightarrow> int \<Rightarrow> topic_pair \<Rightarrow> topic_state \<Rightarrow> bool \<Rightarrow> sent" where
  "alert_for now gid pair ts ok =
     \<lparr>sent_for = str_int (pbp_topic_id pair), sent_chat = gid,
      sent_thread = chat_topic_id pair, sent_text = alert_text now pair ts, sent_ok = ok\<rparr>"

text \<open>
  The messages of an export that the importer counts for a campaign when none of them is
  recorded as imported: those of the campaign that have a month.
\<close>

definition candidates :: "import_config \<Rightarrow> export_msg list \<Rightarrow> string \<Rightarrow> export_msg list" where
  "candidates cfg messages campaign =
     filter (\<lambda>msg. classify (build_thread_map cfg) msg = Some campaign \<and> month_of msg \<noteq> [])
       messages"

section \<open>Inputs for the examples\<close>

definition example_clock :: clock where
  "example_clock k = 5000 + int k"

definition example_config :: config where
  "example_config =
     \<lparr>group_id = - 100, alert_after_hours = Some 4,
      topic_pairs = [\<lparr>pbp_topic_id = 7, chat_topic_id = 8, name = ''Alpha''\<rparr>]\<rparr>"

definition example_state :: state where
  "example_state = \<lparr>offset = Some 5, topics = Some Map.empty, last_alerts = None\<rparr>"

definition example_message :: message where
  "example_message =
     \<lparr>chat_id = Some (- 100), message_thread_id = Some 7,
      from_user = Some \<lparr>is_bot = Some False, first_name = Some ''Ann''\<rparr>, date = Some 100\<rparr>"

definition example_updates :: "update list" where
  "example_updates =
     [\<lparr>update_id = 9, message = None\<rparr>,
      \<lparr>update_id = 10, message = Some example_message\<rparr>,
      \<lparr>update_id = 8, message = Some (example_message\<lparr>chat_id := Some 3\<rparr>)\<rparr>]"

text \<open>The message \<^verbatim>\<open>{}\<close>, and the media markers that decide by themselves.\<close>

definition empty_msg :: export_msg where
  "empty_msg =
     \<lparr>m_id = None, m_type = None, m_message_thread_id = None, m_reply_to_message_id = None,
      m_action = None, m_date = None, m_from = None, m_from_id = None, m_text = None,
      m_text_entities = None, m_media_type = None, m_sticker_emoji = None, m_photo = None,
      m_file = None\<rparr>"

definition media_markers :: "string set" where
  "media_markers = {''animation'', ''video_file'', ''voice_message'', ''video_message'', ''sticker''}"

text \<open>
  A state in which topic 7 has been silent for five hours at \<open>example_now\<close>, and the
  same state with an alert sent two hours before \<open>example_now\<close>.
\<close>

definition example_now :: instant where
  "example_now = 20 * hour"

definition example_silent :: state where
  "example_silent =
     \<lparr>offset = Some 5,
      topics = Some [''7'' \<mapsto> \<lparr>last_message_time = 15 * hour, last_user = Some ''Ann'',
                                campaign_name = ''Alpha''\<rparr>],
      last_alerts = None\<rparr>"

definition example_alerted :: state where
  "example_alerted = example_silent\<lparr>last_alerts := Some [''7'' \<mapsto> 18 * hour]\<rparr>"

definition send_ok :: transport where
  "send_ok k chat thread text = True"

definition send_fails :: transport where
  "send_fails k chat thread text = False"

text \<open>
  A threshold of 5000000 hours, with a topic silent for 6000000 hours at \<open>long_now\<close>
  and alerted one microsecond less than 5000000 hours before it; the same topic with a
  last message that old and no alert; and a threshold of minus six hours with a last
  message five and a half hours after the run.
\<close>

definition long_config :: config where
  "long_config =
     \<lparr>group_id = - 100, alert_after_hours = Some 5000000,
      topic_pairs = [\<lparr>pbp_topic_id = 7, chat_topic_id = 8, name = ''Alpha''\<rparr>]\<rparr>"

definition long_now :: instant where
  "long_now = 6000000 * hour"

definition long_alerted :: state where
  "long_alerted =
     \<lparr>offset = Some 5,
      topics = Some [''7'' \<mapsto> \<lparr>last_message_time = 0, last_user = Some ''Ann'',
                                campaign_name = ''Alpha''\<rparr>],
      last_alerts = Some [''7'' \<mapsto> 1000000 * hour + 1]\<rparr>"

definition early_config :: config where
  "early_config =
     \<lparr>group_id = - 100, alert_after_hours = Some (- 6),
      topic_pairs = [\<lparr>pbp_topic_id = 7, chat_topic_id = 8, name = ''Alpha''\<rparr>]\<rparr>"

definition early_state :: state where
  "early_state =
     \<lparr>offset = Some 5,
      topics = Some [''7'' \<mapsto> \<lparr>last_message_time = 19800000000, last_user = Some ''Ann'',
                                campaign_name = ''Alpha''\<rparr>],
      last_alerts = None\<rparr>"

definition long_silent :: state where
  "long_silent =
     \<lparr>offset = Some 5,
      topics = Some [''7'' \<mapsto> \<lparr>last_message_time = 1000000 * hour + 1, last_user = Some ''Ann'',
                                campaign_name = ''Alpha''\<rparr>],
      last_alerts = None\<rparr>"

text \<open>
  A configuration with one campaign on thread 100, a message of that thread, the empty
  directory of logs, and a directory in which message 1 is already recorded as imported.
\<close>

definition example_import_config :: import_config where
  "example_import_config =
     \<lparr>ic_gm_user_ids = Some [999],
      ic_topic_pairs = Some [\<lparr>ip_name = ''TestCampaign'', ip_pbp_topic_ids = Some [100],
                              ip_gm_user_ids = None\<rparr>]\<rparr>"

definition example_msg :: "int \<Rightarrow> string \<Rightarrow> export_msg" where
  "example_msg i d =
     empty_msg\<lparr>m_id := Some i, m_type := Some ''message'', m_message_thread_id := Some 100,
       m_date := Some d, m_from := Some (Some ''Alice''), m_from_id := Some ''user42'',
       m_text := Some (Text ''Hello'')\<rparr>"

definition no_files :: fs where
  "no_files = \<lparr>dirs = {}, files = Map.empty\<rparr>"

definition one_imported :: fs where
  "one_imported =
     \<lparr>dirs = {''TestCampaign''},
      files = [(''TestCampaign'', ''.imported_ids'') \<mapsto> ''1'' @ [newline]]\<rparr>"

section \<open>Properties of process\_updates\<close>

lemma track_update_filtered:
  "\<not> passes_filters gid ids u \<Longrightarrow> track_update clk gid ids u k st = (None, st, k)"
  by (auto simp: passes_filters_def track_update_def no_user_def Let_def
           split: option.splits)

lemma track_update_topics_present:
  "topics st = Some tp \<Longrightarrow> \<exists>st' k'. track_update clk gid ids u k st = (None, st', k') \<and> topics st' \<noteq> None"
  by (auto simp: track_update_def Let_def split: option.splits)

lemma Max_insert_max:
  "finite A \<Longrightarrow> Max (insert (max a b) A) = Max (insert (a::int) (insert b A))"
  by (cases "A = {}") (simp_all add: max.assoc)

lemma process_loop_offset:
  "fst (process_loop clk gid ids us k off st) = Inr r \<Longrightarrow>
     r = Max (insert off ((\<lambda>u. update_id u + 1) ` set us))"
proof (induction us arbitrary: k off st)
  case Nil
  then show ?case by simp
next
  case (Cons u us)
  obtain e st' k' where t: "track_update clk gid ids u k st = (e, st', k')"
    by (cases "track_update clk gid ids u k st") auto
  show ?case
  proof (cases e)
    case None
    with Cons.prems t
    have "fst (process_loop clk gid ids us k' (max off (update_id u + 1)) st') = Inr r"
      by (simp add: Let_def)
    from Cons.IH [OF this] show ?thesis
      by (simp add: Max_insert_max)
  next
    case (Some a)
    with Cons.prems t show ?thesis by (simp add: Let_def)
  qed
qed

lemma process_loop_returns:
  "topics st \<noteq> None \<Longrightarrow> \<exists>r. fst (process_loop clk gid ids us k off st) = Inr r"
proof (induction us arbitrary: k off st)
  case Nil
  then show ?case by simp
next
  case (Cons u us)
  then obtain tp where "topics st = Some tp" by auto
  from track_update_topics_present [OF this]
  obtain st' k' where t: "track_update clk gid ids u k st = (None, st', k')"
    and "topics st' \<noteq> None" by blast
  from Cons.IH [OF this(2)] t show ?case by (simp add: Let_def)
qed

lemma process_loop_all_filtered:
  "\<forall>u \<in> set us. \<not> passes_filters gid ids u \<Longrightarrow>
     process_loop clk gid ids us k off st =
       (Inr (Max (insert off ((\<lambda>u. update_id u + 1) ` set us))), st, k)"
proof (induction us arbitrary: off)
  case Nil
  then show ?case by simp
next
  case (Cons u us)
  then show ?case
    by (simp add: track_update_filtered Let_def Max_insert_max)
qed

text \<open>
  C1. The offset that process\_updates returns is the maximum of the stored offset (0 when
  the state has none) and \<open>update_id + 1\<close> over every update of the batch, whatever the
  filters say about the update. It returns (rather than raising) whenever the state has a
  \<^verbatim>\<open>topics\<close> mapping, and also when every update of the batch is filtered out.
\<close>

theorem process_updates_offset:
  "(\<forall>r. fst (process_updates clk k updates cfg st) = Inr r \<longrightarrow>
       r = Max (insert (case offset st of None \<Rightarrow> 0 | Some n \<Rightarrow> n)
                  ((\<lambda>u. update_id u + 1) ` set updates))) \<and>
   (topics st \<noteq> None \<or>
      (\<forall>u \<in> set updates. \<not> passes_filters (group_id cfg) (pbp_topic_ids cfg) u) \<longrightarrow>
      fst (process_updates clk k updates cfg st) =
        Inr (Max (insert (case offset st of None \<Rightarrow> 0 | Some n \<Rightarrow> n)
                  ((\<lambda>u. update_id u + 1) ` set updates))))"
proof (intro conjI allI impI)
  fix r
  assume "fst (process_updates clk k updates cfg st) = Inr r"
  then show "r = Max (insert (case offset st of None \<Rightarrow> 0 | Some n \<Rightarrow> n)
                  ((\<lambda>u. update_id u + 1) ` set updates))"
    unfolding process_updates_def by (rule process_loop_offset)
next
  assume a: "topics st \<noteq> None \<or>
      (\<forall>u \<in> set updates. \<not> passes_filters (group_id cfg) (pbp_topic_ids cfg) u)"
  then show "fst (process_updates clk k updates cfg st) =
        Inr (Max (insert (case offset st of None \<Rightarrow> 0 | Some n \<Rightarrow> n)
                  ((\<lambda>u. update_id u + 1) ` set updates)))"
  proof
    assume "topics st \<noteq> None"
    from process_loop_returns [OF this]
    obtain r where r: "fst (process_updates clk k updates cfg st) = Inr r"
      unfolding process_updates_def by blast
    then have "r = Max (insert (case offset st of None \<Rightarrow> 0 | Some n \<Rightarrow> n)
                  ((\<lambda>u. update_id u + 1) ` set updates))"
      unfolding process_updates_def by (rule process_loop_offset)
    with r show ?thesis by simp
  next
    assume "\<forall>u \<in> set updates. \<not> passes_filters (group_id cfg) (pbp_topic_ids cfg) u"
    then show ?thesis
      unfolding process_updates_def by (simp add: process_loop_all_filtered)
  qed
qed

theorem process_updates_offset_witness:
  "topics example_state \<noteq> None \<and>
   fst (process_updates example_clock 0 example_updates example_config example_state) = Inr 11"
proof -
  have t: "topics example_state \<noteq> None"
    by (simp add: example_state_def)
  have m: "Max (insert (case offset example_state of None \<Rightarrow> 0 | Some n \<Rightarrow> n)
             ((\<lambda>u. update_id u + 1) ` set example_updates)) = 11"
    by (simp add: example_state_def example_updates_def)
  from process_updates_offset [of example_clock 0 example_updates example_config example_state] t
  have "fst (process_updates example_clock 0 example_updates example_config example_state) =
        Inr (Max (insert (case offset example_state of None \<Rightarrow> 0 | Some n \<Rightarrow> n)
             ((\<lambda>u. update_id u + 1) ` set example_updates)))"
    by blast
  with t m show ?thesis by simp
qed

section \<open>Properties of extract\_text and detect\_media\<close>

lemma strip_Nil: "strip [] = []"
  by (simp add: strip_def lstrip_def rstrip_def)

text \<open>
  C7. extract\_text tries three encodings in order and returns the first result that is not
  empty: the stripped string of \<^verbatim>\<open>text\<close>; the stripped concatenation, in order, of
  the strings and of the texts of the spans of a list in \<^verbatim>\<open>text\<close>; then the stripped
  concatenation of the texts of the spans of \<^verbatim>\<open>text_entities\<close> (the empty string when
  there are none). The tag of a span plays no part. The three examples of the specification
  are the last three conjuncts.
\<close>

theorem extract_text_precedence:
  "(m_text msg = Some (Text s) \<and> strip s \<noteq> [] \<longrightarrow> extract_text msg = strip s) \<and>
   (m_text msg = Some (Chunks cs) \<and> strip (concat (List.map_filter chunk_part cs)) \<noteq> [] \<longrightarrow>
      extract_text msg = strip (concat (List.map_filter chunk_part cs))) \<and>
   ((case m_text msg of
       None \<Rightarrow> True
     | Some (Text s) \<Rightarrow> strip s = []
     | Some (Chunks cs) \<Rightarrow> strip (concat (List.map_filter chunk_part cs)) = []
     | Some NoText \<Rightarrow> True) \<longrightarrow>
      extract_text msg =
        strip (concat (List.map_filter entity_part
                 (case m_text_entities msg of None \<Rightarrow> [] | Some es \<Rightarrow> es)))) \<and>
   chunk_part (Span ty txt) = chunk_part (Span None txt) \<and>
   entity_part (Span ty txt) = entity_part (Span None txt) \<and>
   extract_text (empty_msg\<lparr>m_text := Some (Text ''hi'')\<rparr>) = ''hi'' \<and>
   extract_text (empty_msg\<lparr>m_text := Some (Chunks [Plain ''a '', Span (Some ''bold'') (Some ''b'')])\<rparr>)
     = ''a b'' \<and>
   extract_text empty_msg = []"
proof (intro conjI impI)
  show "extract_text (empty_msg\<lparr>m_text := Some (Text ''hi'')\<rparr>) = ''hi''"
    by (simp add: extract_text_def empty_msg_def strip_def lstrip_def rstrip_def isspace_def)
  show "extract_text (empty_msg\<lparr>m_text := Some (Chunks [Plain ''a '', Span (Some ''bold'') (Some ''b'')])\<rparr>)
     = ''a b''"
    by (simp add: extract_text_def empty_msg_def strip_def lstrip_def rstrip_def isspace_def
          List.map_filter_simps)
  show "extract_text empty_msg = []"
    by (simp add: extract_text_def empty_msg_def strip_Nil)
qed (auto simp: extract_text_def Let_def strip_Nil List.map_filter_simps
       split: option.splits text_field.splits)

theorem extract_text_precedence_witness:
  "strip ''  '' = [] \<and>
   extract_text (empty_msg\<lparr>m_text := Some (Text ''  ''),
      m_text_entities := Some [Plain ''x'', Span (Some ''italic'') (Some '' hey '')]\<rparr>) = ''hey''"
  using extract_text_precedence
    [of "empty_msg\<lparr>m_text := Some (Text ''  ''),
      m_text_entities := Some [Plain ''x'', Span (Some ''italic'') (Some '' hey '')]\<rparr>"]
  by (simp add: empty_msg_def strip_def lstrip_def rstrip_def isspace_def List.map_filter_simps)

text \<open>
  C8. detect\_media returns at most one tag (its result is an optional string), found in a
  fixed order: the five values of \<^verbatim>\<open>media_type\<close> first, each deciding whatever else
  the message holds; then a photo; then a file when \<^verbatim>\<open>media_type\<close> is absent or
  empty, with the part of the path after its last slash; None otherwise. The last four
  conjuncts are examples, the first three those of the specification.
\<close>

theorem detect_media_precedence:
  "(m_media_type msg = Some ''animation'' \<longrightarrow> detect_media msg = Some ''gif'') \<and>
   (m_media_type msg = Some ''video_file'' \<longrightarrow> detect_media msg = Some ''video'') \<and>
   (m_media_type msg = Some ''voice_message'' \<longrightarrow> detect_media msg = Some ''voice message'') \<and>
   (m_media_type msg = Some ''video_message'' \<longrightarrow> detect_media msg = Some ''video note'') \<and>
   (m_media_type msg = Some ''sticker'' \<longrightarrow>
      detect_media msg =
        Some (''sticker:'' @ (case m_sticker_emoji msg of None \<Rightarrow> ''?'' | Some emoji \<Rightarrow> emoji))) \<and>
   (m_media_type msg \<notin> Some ` media_markers \<and> truthy (m_photo msg) \<longrightarrow>
      detect_media msg = Some ''image'') \<and>
   (m_media_type msg \<notin> Some ` media_markers \<and> \<not> truthy (m_photo msg) \<and>
    m_file msg = Some f \<and> f \<noteq> [] \<and> \<not> truthy (m_media_type msg) \<longrightarrow>
      detect_media msg = Some (''document:'' @ last (split_on CHR ''/'' f))) \<and>
   (m_media_type msg \<notin> Some ` media_markers \<and> \<not> truthy (m_photo msg) \<and>
    (\<not> truthy (m_file msg) \<or> truthy (m_media_type msg)) \<longrightarrow>
      detect_media msg = None) \<and>
   detect_media (empty_msg\<lparr>m_media_type := Some ''animation''\<rparr>) = Some ''gif'' \<and>
   detect_media (empty_msg\<lparr>m_photo := Some ''x.jpg''\<rparr>) = Some ''image'' \<and>
   detect_media empty_msg = None \<and>
   detect_media (empty_msg\<lparr>m_text := Some (Text ''just text'')\<rparr>) = None"
  by (auto simp: detect_media_def media_markers_def truthy_def empty_msg_def Let_def)

theorem detect_media_precedence_witness:
  "m_file (empty_msg\<lparr>m_file := Some ''files/map.pdf''\<rparr>) = Some ''files/map.pdf'' \<and>
   detect_media (empty_msg\<lparr>m_file := Some ''files/map.pdf''\<rparr>) = Some ''document:map.pdf''"
  using detect_media_precedence [of "empty_msg\<lparr>m_file := Some ''files/map.pdf''\<rparr>" "''files/map.pdf''"]
  by (simp add: empty_msg_def media_markers_def truthy_def)

text \<open>
  A message that holds \<^verbatim>\<open>sticker_emoji\<close> and no \<^verbatim>\<open>media_type\<close> has no tag: the
  emoji is read only under the marker \<^verbatim>\<open>sticker\<close>.
\<close>

lemma detect_media_sticker_emoji_only:
  "detect_media (empty_msg\<lparr>m_sticker_emoji := Some e\<rparr>) = None"
  by (simp add: detect_media_def empty_msg_def truthy_def)

section \<open>The floating-point quotient of a duration\<close>

text \<open>
  Rounding to a double moves a positive number by at most the fraction \<open>2^-53\<close> of
  itself, and leaves a whole number below \<open>2^53\<close> where it is. So for every whole
  number of hours up to a million the quotient \<^verbatim>\<open>total_seconds() / 3600\<close> of a
  duration lies on the same side of it as the duration itself, and \<^verbatim>\<open>int\<close> of the
  quotient of a duration shorter than a million hours is the exact number of whole
  hours, truncated towards zero.
\<close>

lemma round_half_even_bounds:
  "of_int (round_half_even x) \<le> x + 1 / 2 \<and> x - 1 / 2 \<le> of_int (round_half_even x)"
proof -
  define f where "f = \<lfloor>x\<rfloor>"
  have f: "of_int f \<le> x" "x < of_int f + 1" unfolding f_def by linarith+
  have r: "round_half_even x = (if x - of_int f < 1 / 2 then f else if 1 / 2 < x - of_int f then f + 1
             else if even f then f else f + 1)"
    by (simp add: round_half_even_def Let_def f_def)
  show ?thesis
  proof (cases "x - of_int f < 1 / 2")
    case True
    thus ?thesis using f r by simp
  next
    case False
    note nlt = this
    show ?thesis
    proof (cases "1 / 2 < x - of_int f")
      case True
      thus ?thesis using f r nlt by simp
    next
      case False
      hence "x - of_int f = 1 / 2" using nlt by simp
      thus ?thesis using r by (cases "even f") simp_all
    qed
  qed
qed

lemma round_half_even_of_int: "round_half_even (of_int n) = n"
  by (simp add: round_half_even_def)

lemma pow2_nat: "0 \<le> k \<Longrightarrow> (2::rat) ^ nat k = 2 powi k"
  by (simp add: power_int_def)

lemma binade_bounds:
  assumes "0 < q"
  shows "2 powi (binade q) \<le> q \<and> q < 2 powi (binade q + 1)"
proof -
  obtain a b where ab: "quotient_of q = (a, b)" by (cases "quotient_of q")
  have b: "0 < b" using ab by (rule quotient_of_denom_pos)
  have q: "q = of_int a / of_int b" using ab by (rule quotient_of_div)
  have a: "0 < a" using assms b q by (simp add: zero_less_divide_iff)
  define t where "t = bitlen a - bitlen b"
  have la: "1 \<le> bitlen a" and lb: "1 \<le> bitlen b"
    using a b bitlen_eq_zero_iff [of a] bitlen_eq_zero_iff [of b] bitlen_nonneg [of a] bitlen_nonneg [of b]
    by linarith+
  have a1: "(2::rat) powi (bitlen a - 1) \<le> of_int a" and a2: "of_int a < (2::rat) powi (bitlen a)"
  proof -
    have "2 ^ nat (bitlen a - 1) \<le> a" "a < 2 ^ nat (bitlen a)" using bitlen_bounds [OF a] by simp_all
    hence "(of_int (2 ^ nat (bitlen a - 1))::rat) \<le> of_int a" "(of_int a::rat) < of_int (2 ^ nat (bitlen a))"
      by (simp_all only: of_int_le_iff of_int_less_iff)
    thus "(2::rat) powi (bitlen a - 1) \<le> of_int a" "of_int a < (2::rat) powi (bitlen a)"
      using la by (simp_all add: power_int_def)
  qed
  have b1: "(2::rat) powi (bitlen b - 1) \<le> of_int b" and b2: "of_int b < (2::rat) powi (bitlen b)"
  proof -
    have "2 ^ nat (bitlen b - 1) \<le> b" "b < 2 ^ nat (bitlen b)" using bitlen_bounds [OF b] by simp_all
    hence "(of_int (2 ^ nat (bitlen b - 1))::rat) \<le> of_int b" "(of_int b::rat) < of_int (2 ^ nat (bitlen b))"
      by (simp_all only: of_int_le_iff of_int_less_iff)
    thus "(2::rat) powi (bitlen b - 1) \<le> of_int b" "of_int b < (2::rat) powi (bitlen b)"
      using lb by (simp_all add: power_int_def)
  qed
  have bq: "q * of_int b = of_int a" using q b by simp
  have low: "2 powi (t - 1) \<le> q"
  proof -
    have "(2::rat) powi (t - 1) * of_int b \<le> 2 powi (t - 1) * 2 powi (bitlen b)"
      using b2 by (intro mult_left_mono) simp_all
    also have "\<dots> = 2 powi (bitlen a - 1)"
      by (simp add: t_def power_int_add [symmetric])
    also have "\<dots> \<le> q * of_int b" using a1 bq by simp
    finally show ?thesis using b by simp
  qed
  have up: "q < 2 powi (t + 1)"
  proof -
    have "q * of_int b < 2 powi (bitlen a)" using a2 bq by simp
    also have "\<dots> = 2 powi (t + 1) * 2 powi (bitlen b - 1)"
      by (simp add: t_def power_int_add [symmetric])
    also have "\<dots> \<le> 2 powi (t + 1) * of_int b"
      using b1 by (intro mult_left_mono) simp_all
    finally show ?thesis using b by simp
  qed
  have bin: "binade q = (if 2 powi t \<le> q then t else t - 1)"
    by (simp add: binade_def ab t_def Let_def)
  show ?thesis
  proof (cases "2 powi t \<le> q")
    case True
    thus ?thesis using up bin by simp
  next
    case False
    thus ?thesis using low bin by simp
  qed
qed


lemma to_double_minus: "to_double (- q) = - to_double q"
  by (simp add: to_double_def Let_def sgn_minus)

lemma to_double_error:
  assumes "0 < q"
  shows "q * (1 - ulp_half) \<le> to_double q \<and> to_double q \<le> q * (1 + ulp_half)"
proof -
  define e where "e = binade q - 52"
  define x where "x = q / 2 powi e"
  have p: "(0::rat) < 2 powi e" by simp
  have qx: "q = x * 2 powi e" by (simp add: x_def)
  have "(2::rat) powi (e + 52) \<le> q" using binade_bounds [OF assms] by (simp add: e_def)
  hence "(2::rat) powi 52 * 2 powi e \<le> x * 2 powi e"
    by (simp add: power_int_add qx [symmetric] mult.commute)
  hence "(2::rat) powi 52 \<le> x" using p by (simp only: mult_le_cancel_right_pos)
  hence x52: "2 ^ 52 \<le> x" by (simp add: power_int_def)
  have td: "to_double q = of_int (round_half_even x) * 2 powi e"
    using assms by (simp add: to_double_def Let_def e_def x_def)
  have h: "1 / 2 \<le> x * ulp_half" using x52 by (simp add: ulp_half_def)
  have "of_int (round_half_even x) \<le> x * (1 + ulp_half)" "x * (1 - ulp_half) \<le> of_int (round_half_even x)"
    using round_half_even_bounds [of x] h by (simp_all add: algebra_simps)
  hence "of_int (round_half_even x) * 2 powi e \<le> x * (1 + ulp_half) * 2 powi e"
        "x * (1 - ulp_half) * 2 powi e \<le> of_int (round_half_even x) * 2 powi e"
    using p by (simp_all only: mult_le_cancel_right_pos)
  moreover have "q * (1 - ulp_half) = x * (1 - ulp_half) * 2 powi e"
    "q * (1 + ulp_half) = x * (1 + ulp_half) * 2 powi e" by (simp_all add: qx)
  ultimately show ?thesis by (simp only: td)
qed

lemma to_double_of_int:
  assumes "0 \<le> n" "n < 2 ^ 53"
  shows "to_double (of_int n) = of_int n"
proof (cases "n = 0")
  case True
  thus ?thesis by (simp add: to_double_def)
next
  case False
  hence n: "0 < n" using assms by simp
  define q :: rat where "q = of_int n"
  have q: "0 < q" using n by (simp add: q_def)
  define e where "e = binade q - 52"
  have "(2::rat) powi (binade q) \<le> q" using binade_bounds [OF q] by simp
  also have "q < 2 powi 53" using assms(2) unfolding q_def
    by (metis of_int_less_iff of_int_numeral of_int_power power_int_numeral numeral_One of_int_1 power_int_of_nat)
  finally have "(2::rat) powi (binade q) < 2 powi 53" .
  hence "binade q < 53" by (rule power_int_le_imp_less_exp [rotated]) simp_all
  hence e: "e \<le> 0" by (simp add: e_def)
  have pe: "(2::rat) powi e = 1 / 2 ^ nat (- e)"
    using e by (cases "e = 0") (simp_all add: power_int_def inverse_eq_divide power_one_over)
  have x: "q / 2 powi e = of_int (n * 2 ^ nat (- e))" by (simp add: pe q_def)
  have "to_double q = of_int (round_half_even (q / 2 powi e)) * 2 powi e"
    using q by (simp add: to_double_def Let_def e_def)
  also have "\<dots> = of_int (n * 2 ^ nat (- e)) * 2 powi e"
    by (simp only: x round_half_even_of_int)
  also have "\<dots> = q" by (simp add: pe q_def)
  finally show ?thesis by (simp add: q_def)
qed

lemma elapsed_hours_minus: "elapsed_hours (- d) = - elapsed_hours d"
  by (simp add: elapsed_hours_def total_seconds_def to_double_minus)

lemma elapsed_hours_0: "elapsed_hours 0 = 0"
  by (simp add: elapsed_hours_def total_seconds_def to_double_def)

lemma elapsed_hours_whole:
  assumes "0 \<le> k" "k \<le> 1000000"
  shows "elapsed_hours (k * hour) = of_int k"
proof -
  have "(of_int (k * hour) :: rat) / 1000000 = of_int (k * 3600)" by (simp add: hour_def)
  moreover have "to_double (of_int (k * 3600)) = of_int (k * 3600)"
    using assms by (intro to_double_of_int) simp_all
  moreover have "(of_int (k * 3600) :: rat) / 3600 = of_int k" by simp
  moreover have "to_double (of_int k) = of_int k"
    using assms by (intro to_double_of_int) simp_all
  ultimately show ?thesis by (simp only: elapsed_hours_def total_seconds_def)
qed

lemma elapsed_hours_bounds:
  assumes "0 < d"
  shows "of_int d / of_int hour * ((1 - ulp_half) * (1 - ulp_half)) \<le> elapsed_hours d \<and>
         elapsed_hours d \<le> of_int d / of_int hour * ((1 + ulp_half) * (1 + ulp_half))"
proof -
  define q :: rat where "q = of_int d / 1000000"
  define s where "s = to_double q"
  have q: "0 < q" using assms by (simp add: q_def)
  have u: "0 < 1 - ulp_half" "0 < 1 + ulp_half" by (simp_all add: ulp_half_def)
  have s1: "q * (1 - ulp_half) \<le> s" and s2: "s \<le> q * (1 + ulp_half)"
    using to_double_error [OF q] by (simp_all add: s_def)
  have "0 < q * (1 - ulp_half)" using q u by simp
  hence s: "0 < s" using s1 by simp
  hence s3: "0 < s / 3600" by simp
  have e: "elapsed_hours d = to_double (s / 3600)" by (simp add: elapsed_hours_def total_seconds_def s_def q_def)
  have t1: "s / 3600 * (1 - ulp_half) \<le> elapsed_hours d"
   and t2: "elapsed_hours d \<le> s / 3600 * (1 + ulp_half)"
    using to_double_error [OF s3] by (simp_all add: e)
  have "q * (1 - ulp_half) / 3600 * (1 - ulp_half) \<le> s / 3600 * (1 - ulp_half)"
    using s1 u by (simp add: divide_right_mono mult_right_mono)
  hence l: "q * (1 - ulp_half) / 3600 * (1 - ulp_half) \<le> elapsed_hours d" using t1 by simp
  have "s / 3600 * (1 + ulp_half) \<le> q * (1 + ulp_half) / 3600 * (1 + ulp_half)"
    using s2 u by (simp add: divide_right_mono mult_right_mono)
  hence r: "elapsed_hours d \<le> q * (1 + ulp_half) / 3600 * (1 + ulp_half)" using t2 by simp
  have "q * (1 - ulp_half) / 3600 * (1 - ulp_half) = of_int d / of_int hour * ((1 - ulp_half) * (1 - ulp_half))"
       "q * (1 + ulp_half) / 3600 * (1 + ulp_half) = of_int d / of_int hour * ((1 + ulp_half) * (1 + ulp_half))"
    by (simp_all add: q_def hour_def)
  thus ?thesis using l r by simp
qed

lemma elapsed_hours_nonneg: "0 \<le> d \<Longrightarrow> 0 \<le> elapsed_hours d"
proof (cases "d = 0")
  case True
  thus ?thesis by (simp add: elapsed_hours_0)
next
  case False
  assume "0 \<le> d"
  hence d: "0 < d" using False by simp
  have "0 \<le> of_int d / of_int hour * ((1 - ulp_half) * (1 - ulp_half))"
    using d by (simp add: hour_def ulp_half_def)
  thus ?thesis using elapsed_hours_bounds [OF d] by linarith
qed

text \<open>Below a whole number of hours, up to a million, the quotient stays below it.\<close>

lemma elapsed_hours_below:
  assumes "0 < h" "h \<le> 1000000" "0 < d" "d < h * hour"
  shows "elapsed_hours d < of_int h"
proof -
  define X :: rat where "X = of_int h * of_int hour"
  define c :: rat where "c = (1 + ulp_half) * (1 + ulp_half)"
  have X: "0 < X" "X \<le> 3600000000000000" using assms by (simp_all add: X_def hour_def)
  have "d \<le> h * hour - 1" using assms by simp
  hence "(of_int d :: rat) \<le> of_int (h * hour - 1)" by (simp only: of_int_le_iff)
  hence d: "of_int d \<le> X - 1" by (simp add: X_def)
  have c: "c = 1 + (2 * ulp_half + ulp_half * ulp_half)" "0 < c" by (simp_all add: c_def algebra_simps ulp_half_def)
  have "X * (2 * ulp_half + ulp_half * ulp_half) \<le> 3600000000000000 * (2 * ulp_half + ulp_half * ulp_half)"
    using X by (intro mult_right_mono) (simp_all add: ulp_half_def)
  also have "\<dots> < 1" by (simp add: ulp_half_def)
  finally have "X * (2 * ulp_half + ulp_half * ulp_half) < 1" .
  moreover have "1 \<le> c" by (simp add: c ulp_half_def)
  moreover have "X * c - X = X * (2 * ulp_half + ulp_half * ulp_half)" by (simp add: c algebra_simps)
  ultimately have "X * c - X < c" by simp
  hence k: "(X - 1) * c < X" by (simp add: algebra_simps)
  have "of_int d * c \<le> (X - 1) * c" using d c by (intro mult_right_mono) simp_all
  hence "of_int d * c < of_int h * of_int hour" using k by (simp add: X_def)
  hence "of_int d * c / of_int hour < of_int h" by (simp add: hour_def)
  moreover have "elapsed_hours d \<le> of_int d * c / of_int hour"
    using elapsed_hours_bounds [OF assms(3)] by (simp add: c_def)
  ultimately show ?thesis by simp
qed

lemma elapsed_hours_above:
  assumes "0 \<le> h" "h \<le> 1000000" "h * hour < d"
  shows "of_int h < elapsed_hours d"
proof -
  define X :: rat where "X = of_int h * of_int hour"
  define c :: rat where "c = (1 - ulp_half) * (1 - ulp_half)"
  have X: "0 \<le> X" "X \<le> 3600000000000000" using assms by (simp_all add: X_def hour_def)
  have d0: "0 < d" using assms by (smt (verit) hour_def mult_nonneg_nonneg)
  have "h * hour + 1 \<le> d" using assms by simp
  hence "(of_int (h * hour + 1) :: rat) \<le> of_int d" by (simp only: of_int_le_iff)
  hence d: "X + 1 \<le> of_int d" by (simp add: X_def)
  have c: "c = 1 - (2 * ulp_half - ulp_half * ulp_half)" "0 < c" by (simp_all add: c_def algebra_simps ulp_half_def)
  have "X * (2 * ulp_half - ulp_half * ulp_half) \<le> 3600000000000000 * (2 * ulp_half - ulp_half * ulp_half)"
    using X by (intro mult_right_mono) (simp_all add: ulp_half_def)
  also have "\<dots> < c" by (simp add: ulp_half_def c)
  finally have "X * (2 * ulp_half - ulp_half * ulp_half) < c" .
  moreover have "X - X * c = X * (2 * ulp_half - ulp_half * ulp_half)" by (simp add: c algebra_simps)
  ultimately have "X - X * c < c" by simp
  hence k: "X < (X + 1) * c" by (simp add: algebra_simps)
  have "(X + 1) * c \<le> of_int d * c" using d c by (intro mult_right_mono) simp_all
  hence "of_int h * of_int hour < of_int d * c" using k by (simp add: X_def)
  hence "of_int h < of_int d * c / of_int hour" by (simp add: hour_def)
  moreover have "of_int d * c / of_int hour \<le> elapsed_hours d"
    using elapsed_hours_bounds [OF d0] by (simp add: c_def)
  ultimately show ?thesis by simp
qed

lemma elapsed_hours_less:
  assumes "\<bar>h\<bar> \<le> 1000000" "d < h * hour"
  shows "elapsed_hours d < of_int h"
proof (cases "0 < h")
  case True
  show ?thesis
  proof (cases "0 < d")
    case True
    thus ?thesis using \<open>0 < h\<close> assms by (intro elapsed_hours_below) simp_all
  next
    case False
    hence "0 \<le> elapsed_hours (- d)" by (intro elapsed_hours_nonneg) simp
    thus ?thesis using \<open>0 < h\<close> by (simp add: elapsed_hours_minus)
  qed
next
  case False
  have "(- h) * hour < - d" using assms by simp
  hence "of_int (- h) < elapsed_hours (- d)"
    using False assms by (intro elapsed_hours_above) simp_all
  thus ?thesis by (simp add: elapsed_hours_minus)
qed

lemma elapsed_hours_greater:
  assumes "\<bar>h\<bar> \<le> 1000000" "h * hour < d"
  shows "of_int h < elapsed_hours d"
proof -
  have "- d < (- h) * hour" using assms by simp
  hence "elapsed_hours (- d) < of_int (- h)" using assms by (intro elapsed_hours_less) simp_all
  thus ?thesis by (simp add: elapsed_hours_minus)
qed

lemma elapsed_hours_exact:
  assumes "\<bar>h\<bar> \<le> 1000000"
  shows "elapsed_hours (h * hour) = of_int h"
proof (cases "0 \<le> h")
  case True
  thus ?thesis using assms by (intro elapsed_hours_whole) simp_all
next
  case False
  hence "elapsed_hours ((- h) * hour) = of_int (- h)" using assms by (intro elapsed_hours_whole) simp_all
  thus ?thesis by (simp add: elapsed_hours_minus)
qed

lemma hours_lt_exact:
  assumes "\<bar>h\<bar> \<le> 1000000"
  shows "hours_lt d h = (d < h * hour)"
proof (cases "d < h * hour")
  case True
  thus ?thesis using elapsed_hours_less [OF assms] by (simp add: hours_lt_def)
next
  case False
  show ?thesis
  proof (cases "d = h * hour")
    case True
    thus ?thesis using elapsed_hours_exact [OF assms] by (simp add: hours_lt_def)
  next
    case False
    hence "h * hour < d" using \<open>\<not> d < h * hour\<close> by simp
    hence "of_int h < elapsed_hours d" using assms by (intro elapsed_hours_greater)
    thus ?thesis using \<open>\<not> d < h * hour\<close> by (simp add: hours_lt_def)
  qed
qed

lemma int_hours_minus: "int_hours (- d) = - int_hours d"
proof (cases "elapsed_hours d = 0")
  case True
  thus ?thesis by (simp add: int_hours_def elapsed_hours_minus)
next
  case False
  thus ?thesis by (auto simp add: int_hours_def elapsed_hours_minus Let_def)
qed

lemma int_hours_floor:
  assumes "0 \<le> d" "d < 1000000 * hour"
  shows "int_hours d = d div hour"
proof -
  define k where "k = d div hour"
  have h: "0 < hour" by (simp add: hour_def)
  have k0: "0 \<le> k" using assms h by (simp add: k_def pos_imp_zdiv_nonneg_iff)
  have dm: "d = k * hour + d mod hour" by (simp add: k_def)
  have m: "0 \<le> d mod hour" "d mod hour < hour" using h by simp_all
  have lo: "k * hour \<le> d" using dm m by linarith
  have hi: "d < (k + 1) * hour" using dm m by (simp add: algebra_simps)
  have "k * hour < 1000000 * hour" using lo assms by linarith
  hence k1: "k < 1000000" using h by (simp only: mult_less_cancel_right_pos)
  have a: "\<bar>k\<bar> \<le> 1000000" "\<bar>k + 1\<bar> \<le> 1000000" using k0 k1 by simp_all
  have "\<not> hours_lt d k" using hours_lt_exact [OF a(1), of d] lo by simp
  hence l: "of_int k \<le> elapsed_hours d" by (simp add: hours_lt_def)
  have "hours_lt d (k + 1)" using hours_lt_exact [OF a(2), of d] hi by simp
  hence u: "elapsed_hours d < of_int k + 1" by (simp add: hours_lt_def)
  have "\<lfloor>elapsed_hours d\<rfloor> = k" using l u by (simp add: floor_unique)
  moreover have "0 \<le> elapsed_hours d" using assms by (intro elapsed_hours_nonneg)
  ultimately show ?thesis by (simp add: int_hours_def k_def)
qed

lemma int_hours_exact:
  assumes "\<bar>d\<bar> < 1000000 * hour"
  shows "int_hours d = (if 0 \<le> d then d div hour else - ((- d) div hour))"
proof (cases "0 \<le> d")
  case True
  thus ?thesis using assms by (simp add: int_hours_floor)
next
  case False
  hence "int_hours (- d) = (- d) div hour" using assms by (intro int_hours_floor) simp_all
  thus ?thesis using False by (simp add: int_hours_minus)
qed

section \<open>Properties of check\_and\_alert\<close>

lemma check_pair_skip:
  "tracked st (str_int (pbp_topic_id pair)) = None \<Longrightarrow>
     check_pair send now gid ah pair (st, lg) = (st, lg)"
  "tracked st (str_int (pbp_topic_id pair)) = Some ts \<Longrightarrow>
     hours_lt (now - last_message_time ts) ah \<Longrightarrow>
     check_pair send now gid ah pair (st, lg) = (st, lg)"
  "alerts st (str_int (pbp_topic_id pair)) = Some la \<Longrightarrow> hours_lt (now - la) ah \<Longrightarrow>
     check_pair send now gid ah pair (st, lg) = (st, lg)"
  by (simp_all add: check_pair_def Let_def split: option.split)

lemma check_pair_send:
  assumes "tracked st (str_int (pbp_topic_id pair)) = Some ts"
    and "\<not> hours_lt (now - last_message_time ts) ah"
    and "\<forall>la. alerts st (str_int (pbp_topic_id pair)) = Some la \<longrightarrow> \<not> hours_lt (now - la) ah"
  shows "\<exists>ok. check_pair send now gid ah pair (st, lg) =
           (if ok then st\<lparr>last_alerts := Some ((alerts st)(str_int (pbp_topic_id pair) \<mapsto> now))\<rparr>
            else st,
            lg @ [alert_for now gid pair ts ok])"
proof (cases "alerts st (str_int (pbp_topic_id pair))")
  case None
  with assms(1,2) show ?thesis
    by (auto simp: check_pair_def Let_def alert_for_def alert_text_def)
next
  case (Some la)
  with assms(3) have "\<not> hours_lt (now - la) ah" by simp
  with Some assms(1,2) show ?thesis
    by (auto simp: check_pair_def Let_def alert_for_def alert_text_def)
qed

lemma check_pair_cases:
  assumes "check_pair send now gid ah pair (st, lg) = (st', log')"
  shows "(st' = st \<and> log' = lg) \<or>
         (\<exists>ts ok. tracked st (str_int (pbp_topic_id pair)) = Some ts \<and>
            \<not> hours_lt (now - last_message_time ts) ah \<and>
            (\<forall>la. alerts st (str_int (pbp_topic_id pair)) = Some la \<longrightarrow> \<not> hours_lt (now - la) ah) \<and>
            log' = lg @ [alert_for now gid pair ts ok] \<and>
            st' = (if ok then st\<lparr>last_alerts := Some ((alerts st)(str_int (pbp_topic_id pair) \<mapsto> now))\<rparr>
                   else st))"
proof (cases "tracked st (str_int (pbp_topic_id pair))")
  case None
  from check_pair_skip(1) [OF this] assms show ?thesis by simp
next
  case (Some ts)
  show ?thesis
  proof (cases "hours_lt (now - last_message_time ts) ah")
    case True
    from check_pair_skip(2) [OF Some this] assms show ?thesis by simp
  next
    case False
    show ?thesis
    proof (cases "\<exists>la. alerts st (str_int (pbp_topic_id pair)) = Some la \<and> hours_lt (now - la) ah")
      case True
      then obtain la where "alerts st (str_int (pbp_topic_id pair)) = Some la"
        and "hours_lt (now - la) ah" by blast
      from check_pair_skip(3) [OF this] assms show ?thesis by simp
    next
      case nc: False
      then have c: "\<forall>la. alerts st (str_int (pbp_topic_id pair)) = Some la \<longrightarrow> \<not> hours_lt (now - la) ah"
        by blast
      from check_pair_send [OF Some False c, of send gid lg] obtain ok where
        "check_pair send now gid ah pair (st, lg) =
           (if ok then st\<lparr>last_alerts := Some ((alerts st)(str_int (pbp_topic_id pair) \<mapsto> now))\<rparr>
            else st,
            lg @ [alert_for now gid pair ts ok])" by blast
      with assms have "log' = lg @ [alert_for now gid pair ts ok]"
        and "st' = (if ok then st\<lparr>last_alerts := Some ((alerts st)(str_int (pbp_topic_id pair) \<mapsto> now))\<rparr>
                   else st)" by simp_all
      with Some False c show ?thesis by blast
    qed
  qed
qed

lemma alerts_update [simp]:
  "alerts (st\<lparr>last_alerts := Some m\<rparr>) = m"
  "tracked (st\<lparr>last_alerts := la\<rparr>) = tracked st"
  by (simp_all add: alerts_def tracked_def)

lemma fold_check_pair:
  assumes "fold (check_pair send now gid ah) ps (st, lg) = (st', log')"
  shows "\<exists>ext. log' = lg @ ext \<and> topics st' = topics st \<and> offset st' = offset st \<and>
           (\<forall>key. alerts st' key =
              (if \<exists>e \<in> set ext. sent_for e = key \<and> sent_ok e then Some now else alerts st key)) \<and>
           (\<forall>e \<in> set ext. \<exists>p \<in> set ps. \<exists>ts ok.
              tracked st (str_int (pbp_topic_id p)) = Some ts \<and>
              \<not> hours_lt (now - last_message_time ts) ah \<and> e = alert_for now gid p ts ok)"
  using assms
proof (induction ps arbitrary: st lg)
  case Nil
  then show ?case by simp
next
  case (Cons p ps)
  obtain st1 log1 where s: "check_pair send now gid ah p (st, lg) = (st1, log1)"
    by (cases "check_pair send now gid ah p (st, lg)") auto
  with Cons.prems have f: "fold (check_pair send now gid ah) ps (st1, log1) = (st', log')"
    by simp
  from Cons.IH [OF f] obtain ext where
    e1: "log' = log1 @ ext" and e2: "topics st' = topics st1" and e3: "offset st' = offset st1"
    and e4: "\<forall>key. alerts st' key =
              (if \<exists>e \<in> set ext. sent_for e = key \<and> sent_ok e then Some now else alerts st1 key)"
    and e5: "\<forall>e \<in> set ext. \<exists>p \<in> set ps. \<exists>ts ok.
              tracked st1 (str_int (pbp_topic_id p)) = Some ts \<and>
              \<not> hours_lt (now - last_message_time ts) ah \<and> e = alert_for now gid p ts ok"
    by blast
  from check_pair_cases [OF s] show ?case
  proof
    assume "st1 = st \<and> log1 = lg"
    with e1 e2 e3 e4 e5 show ?thesis
      by (intro exI [of _ ext]) auto
  next
    assume "\<exists>ts ok. tracked st (str_int (pbp_topic_id p)) = Some ts \<and>
            \<not> hours_lt (now - last_message_time ts) ah \<and>
            (\<forall>la. alerts st (str_int (pbp_topic_id p)) = Some la \<longrightarrow> \<not> hours_lt (now - la) ah) \<and>
            log1 = lg @ [alert_for now gid p ts ok] \<and>
            st1 = (if ok then st\<lparr>last_alerts := Some ((alerts st)(str_int (pbp_topic_id p) \<mapsto> now))\<rparr>
                   else st)"
    then obtain ts ok where
      t1: "tracked st (str_int (pbp_topic_id p)) = Some ts"
      and t2: "\<not> hours_lt (now - last_message_time ts) ah"
      and t3: "log1 = lg @ [alert_for now gid p ts ok]"
      and t4: "st1 = (if ok then st\<lparr>last_alerts := Some ((alerts st)(str_int (pbp_topic_id p) \<mapsto> now))\<rparr>
                   else st)"
      by blast
    have tr: "tracked st1 = tracked st" using t4 by simp
    have a: "log' = lg @ (alert_for now gid p ts ok # ext)" using e1 t3 by simp
    have b: "topics st' = topics st" "offset st' = offset st" using e2 e3 t4 by auto
    have c: "\<forall>key. alerts st' key =
              (if \<exists>e \<in> set (alert_for now gid p ts ok # ext). sent_for e = key \<and> sent_ok e
               then Some now else alerts st key)"
      using e4 t4 by (auto simp: alert_for_def)
    have d: "\<forall>e \<in> set (alert_for now gid p ts ok # ext). \<exists>q \<in> set (p # ps). \<exists>ts ok.
              tracked st (str_int (pbp_topic_id q)) = Some ts \<and>
              \<not> hours_lt (now - last_message_time ts) ah \<and> e = alert_for now gid q ts ok"
      using e5 t1 t2 tr by auto
    from a b c d show ?thesis by blast
  qed
qed

lemma fold_check_pair_cooldown:
  assumes "fold (check_pair send now gid ah) ps (st, lg) = (st', log')"
    and "alerts st key = Some la" and "hours_lt (now - la) ah"
  shows "alerts st' key = Some la \<and> (\<forall>e \<in> set log'. sent_for e = key \<longrightarrow> e \<in> set lg)"
  using assms
proof (induction ps arbitrary: st lg)
  case Nil
  then show ?case by simp
next
  case (Cons p ps)
  obtain st1 log1 where s: "check_pair send now gid ah p (st, lg) = (st1, log1)"
    by (cases "check_pair send now gid ah p (st, lg)") auto
  with Cons.prems have f: "fold (check_pair send now gid ah) ps (st1, log1) = (st', log')"
    by simp
  from check_pair_cases [OF s] Cons.prems(2,3)
  have k: "alerts st1 key = Some la \<and> (\<forall>e \<in> set log1. sent_for e = key \<longrightarrow> e \<in> set lg)"
    by (auto simp: alert_for_def split: if_splits)
  from Cons.IH [OF f] k Cons.prems(3) show ?case by blast
qed

lemma check_and_alert_fold:
  "\<exists>st1. alerts st1 = alerts st \<and> topics st1 = topics st \<and> offset st1 = offset st \<and>
     tracked st1 = tracked st \<and>
     check_and_alert send now cfg st =
       fold (check_pair send now (group_id cfg) (alert_hours cfg)) (topic_pairs cfg) (st1, [])"
proof (cases "last_alerts st")
  case None
  then show ?thesis
    by (intro exI [of _ "st\<lparr>last_alerts := Some Map.empty\<rparr>"])
       (simp add: check_and_alert_def alerts_def tracked_def)
next
  case (Some la)
  then show ?thesis
    by (intro exI [of _ st]) (simp add: check_and_alert_def)
qed

lemma check_and_alert_props:
  "topics (fst (check_and_alert send now cfg st)) = topics st \<and>
   offset (fst (check_and_alert send now cfg st)) = offset st \<and>
   (\<forall>key. alerts (fst (check_and_alert send now cfg st)) key =
      (if \<exists>e \<in> set (snd (check_and_alert send now cfg st)). sent_for e = key \<and> sent_ok e
       then Some now else alerts st key)) \<and>
   (\<forall>e \<in> set (snd (check_and_alert send now cfg st)). \<exists>p \<in> set (topic_pairs cfg). \<exists>ts ok.
      tracked st (str_int (pbp_topic_id p)) = Some ts \<and>
      \<not> hours_lt (now - last_message_time ts) (alert_hours cfg) \<and>
      e = alert_for now (group_id cfg) p ts ok)"
proof -
  obtain st1 where a: "alerts st1 = alerts st" "topics st1 = topics st" "offset st1 = offset st"
    "tracked st1 = tracked st"
    and c: "check_and_alert send now cfg st =
       fold (check_pair send now (group_id cfg) (alert_hours cfg)) (topic_pairs cfg) (st1, [])"
    using check_and_alert_fold by blast
  obtain st' log' where r: "check_and_alert send now cfg st = (st', log')"
    by (cases "check_and_alert send now cfg st") auto
  with c have "fold (check_pair send now (group_id cfg) (alert_hours cfg)) (topic_pairs cfg) (st1, [])
     = (st', log')" by simp
  from fold_check_pair [OF this] a r show ?thesis
    by (simp split del: if_split cong: if_cong)
qed

lemma check_and_alert_cooldown:
  assumes "alerts st key = Some la" and "hours_lt (now - la) (alert_hours cfg)"
  shows "alerts (fst (check_and_alert send now cfg st)) key = Some la \<and>
         (\<forall>e \<in> set (snd (check_and_alert send now cfg st)). sent_for e \<noteq> key)"
proof -
  obtain st1 where a: "alerts st1 = alerts st"
    and c: "check_and_alert send now cfg st =
       fold (check_pair send now (group_id cfg) (alert_hours cfg)) (topic_pairs cfg) (st1, [])"
    using check_and_alert_fold by blast
  obtain st' log' where r: "check_and_alert send now cfg st = (st', log')"
    by (cases "check_and_alert send now cfg st") auto
  with c have f: "fold (check_pair send now (group_id cfg) (alert_hours cfg)) (topic_pairs cfg) (st1, [])
     = (st', log')" by simp
  from assms(1) a have "alerts st1 key = Some la" by simp
  from fold_check_pair_cooldown [OF f this assms(2)] r show ?thesis by auto
qed

text \<open>One pair whose topic is tracked, silent long enough and not in its cooldown: one alert.\<close>

lemma one_pair_alert:
  assumes "\<not> hours_lt (now - t) ah"
    and "\<forall>m la. al = Some m \<and> m (str_int (pbp_topic_id p)) = Some la \<longrightarrow> \<not> hours_lt (now - la) ah"
  shows "map (\<lambda>e. (sent_for e, sent_text e)) (snd (check_and_alert send now
            \<lparr>group_id = g, alert_after_hours = Some ah, topic_pairs = [p]\<rparr>
            \<lparr>offset = off,
             topics = Some [str_int (pbp_topic_id p) \<mapsto>
                        \<lparr>last_message_time = t, last_user = lu, campaign_name = c\<rparr>],
             last_alerts = al\<rparr>))
         = [(str_int (pbp_topic_id p),
             alert_text now p \<lparr>last_message_time = t, last_user = lu, campaign_name = c\<rparr>)]"
proof -
  let ?ts = "\<lparr>last_message_time = t, last_user = lu, campaign_name = c\<rparr>"
  let ?st = "\<lparr>offset = off, topics = Some [str_int (pbp_topic_id p) \<mapsto> ?ts], last_alerts = al\<rparr>"
  let ?cfg = "\<lparr>group_id = g, alert_after_hours = Some ah, topic_pairs = [p]\<rparr>"
  obtain st1 where a: "alerts st1 = alerts ?st" "tracked st1 = tracked ?st"
    and c: "check_and_alert send now ?cfg ?st =
       fold (check_pair send now (group_id ?cfg) (alert_hours ?cfg)) (topic_pairs ?cfg) (st1, [])"
    using check_and_alert_fold [where send = send and now = now and cfg = ?cfg and st = ?st] by blast
  have "tracked ?st (str_int (pbp_topic_id p)) = Some ?ts"
    by (simp add: tracked_def)
  hence t: "tracked st1 (str_int (pbp_topic_id p)) = Some ?ts"
    by (simp only: a)
  have e: "\<not> hours_lt (now - last_message_time ?ts) ah"
    using assms(1) by simp
  have l: "\<forall>la. alerts st1 (str_int (pbp_topic_id p)) = Some la \<longrightarrow> \<not> hours_lt (now - la) ah"
  proof -
    have "\<forall>la. alerts ?st (str_int (pbp_topic_id p)) = Some la \<longrightarrow> \<not> hours_lt (now - la) ah"
      using assms(2) by (cases al) (simp_all add: alerts_def)
    thus ?thesis by (simp only: a)
  qed
  from check_pair_send [OF t e l, of send g "[]"]
  have "map (\<lambda>e. (sent_for e, sent_text e)) (snd (check_pair send now g ah p (st1, [])))
          = [(str_int (pbp_topic_id p), alert_text now p ?ts)]"
    by (auto simp: alert_for_def)
  thus ?thesis by (simp add: c alert_hours_def)
qed

text \<open>
  C6. After check\_and\_alert the entry of a topic in \<^verbatim>\<open>last_alerts\<close> is the current
  time exactly when a call of send\_message for that topic succeeded during the run;
  otherwise, and so whenever every send for the topic failed, it is what it was before (a
  missing \<^verbatim>\<open>last_alerts\<close> reads as the empty mapping). The next run therefore decides
  on the same entry and tries again.
\<close>

theorem last_alerts_updated_iff_sent:
  "alerts (fst (check_and_alert send now cfg st)) key =
     (if \<exists>e \<in> set (snd (check_and_alert send now cfg st)). sent_for e = key \<and> sent_ok e
      then Some now else alerts st key)"
  using check_and_alert_props [of send now cfg st] by blast

lemma example_silent_send_ok:
  "snd (check_and_alert send_ok example_now example_config example_silent) =
     [\<lparr>sent_for = ''7'', sent_chat = - 100, sent_thread = 8,
       sent_text = ''No new posts in Alpha PBP for 5h.'' @ [newline] @ ''Last post was from Ann.'',
       sent_ok = True\<rparr>]"
  by code_simp

lemma example_silent_send_fails:
  "snd (check_and_alert send_fails example_now example_config example_silent) =
     [\<lparr>sent_for = ''7'', sent_chat = - 100, sent_thread = 8,
       sent_text = ''No new posts in Alpha PBP for 5h.'' @ [newline] @ ''Last post was from Ann.'',
       sent_ok = False\<rparr>]"
  by code_simp

theorem last_alerts_updated_iff_sent_witness:
  "alerts (fst (check_and_alert send_ok example_now example_config example_silent)) ''7''
     = Some example_now \<and>
   alerts (fst (check_and_alert send_fails example_now example_config example_silent)) ''7''
     = None"
proof -
  have a: "alerts example_silent ''7'' = None"
    by (simp add: alerts_def example_silent_def)
  have "alerts (fst (check_and_alert send_ok example_now example_config example_silent)) ''7''
     = Some example_now"
    using last_alerts_updated_iff_sent [of send_ok example_now example_config example_silent "''7''"]
    by (simp add: example_silent_send_ok)
  moreover
  have "alerts (fst (check_and_alert send_fails example_now example_config example_silent)) ''7''
     = None"
    using last_alerts_updated_iff_sent [of send_fails example_now example_config example_silent "''7''"]
    by (simp add: example_silent_send_fails a)
  ultimately show ?thesis by simp
qed

text \<open>
  C5. check\_and\_alert decides the cooldown on the floating-point quotient. When the
  hours since the last alert of a topic, as \<^verbatim>\<open>total_seconds() / 3600\<close> gives them, are
  below \<^verbatim>\<open>alert_after_hours\<close>, it sends nothing for the topic and leaves its entry in
  \<^verbatim>\<open>last_alerts\<close> as it is, however long the topic has been silent. With a threshold
  of at most a million hours, in absolute value, that is the case whenever the last alert
  is less than \<^verbatim>\<open>alert_after_hours\<close> hours old. So, with such a threshold, after a run
  at \<open>now\<close> that produced an alert for the topic, no run at a time \<open>now2\<close> less than
  \<^verbatim>\<open>alert_after_hours\<close> hours later, on a state that still holds that entry, sends
  another: one alert at most per window.
\<close>

theorem cooldown_suppresses_alert:
  "(alerts st key = Some la \<and> hours_lt (now - la) (alert_hours cfg) \<longrightarrow>
      (\<forall>e \<in> set (snd (check_and_alert send now cfg st)). sent_for e \<noteq> key) \<and>
      alerts (fst (check_and_alert send now cfg st)) key = Some la) \<and>
   (\<bar>alert_hours cfg\<bar> \<le> 1000000 \<and> alerts st key = Some la \<and>
    now - la < alert_hours cfg * hour \<longrightarrow>
      (\<forall>e \<in> set (snd (check_and_alert send now cfg st)). sent_for e \<noteq> key) \<and>
      alerts (fst (check_and_alert send now cfg st)) key = Some la) \<and>
   (\<bar>alert_hours cfg\<bar> \<le> 1000000 \<and>
    e \<in> set (snd (check_and_alert send now cfg st)) \<and> sent_for e = key \<and> sent_ok e \<and>
    alerts st2 key = alerts (fst (check_and_alert send now cfg st)) key \<and>
    now2 - now < alert_hours cfg * hour \<longrightarrow>
      (\<forall>e' \<in> set (snd (check_and_alert send2 now2 cfg st2)). sent_for e' \<noteq> key))"
proof (intro conjI impI)
  assume "alerts st key = Some la \<and> hours_lt (now - la) (alert_hours cfg)"
  then show "\<forall>e \<in> set (snd (check_and_alert send now cfg st)). sent_for e \<noteq> key"
    and "alerts (fst (check_and_alert send now cfg st)) key = Some la"
    using check_and_alert_cooldown [of st key la now cfg send] by blast+
next
  assume a: "\<bar>alert_hours cfg\<bar> \<le> 1000000 \<and> alerts st key = Some la \<and>
    now - la < alert_hours cfg * hour"
  hence "hours_lt (now - la) (alert_hours cfg)" by (simp add: hours_lt_exact)
  with a show "\<forall>e \<in> set (snd (check_and_alert send now cfg st)). sent_for e \<noteq> key"
    and "alerts (fst (check_and_alert send now cfg st)) key = Some la"
    using check_and_alert_cooldown [of st key la now cfg send] by blast+
next
  assume a: "\<bar>alert_hours cfg\<bar> \<le> 1000000 \<and>
    e \<in> set (snd (check_and_alert send now cfg st)) \<and> sent_for e = key \<and> sent_ok e \<and>
    alerts st2 key = alerts (fst (check_and_alert send now cfg st)) key \<and>
    now2 - now < alert_hours cfg * hour"
  hence h: "hours_lt (now2 - now) (alert_hours cfg)" by (simp add: hours_lt_exact)
  from a check_and_alert_props [of send now cfg st]
  have "alerts (fst (check_and_alert send now cfg st)) key = Some now" by auto
  with a have "alerts st2 key = Some now" by simp
  from check_and_alert_cooldown [OF this h, of send2]
  show "\<forall>e' \<in> set (snd (check_and_alert send2 now2 cfg st2)). sent_for e' \<noteq> key" by blast
qed

text \<open>
  A threshold of 5000000 hours and an alert sent one microsecond less than 5000000 hours
  ago: the quotient rounds to 5000000.0, which is not below the threshold, and the alert
  is sent again.
\<close>

theorem cooldown_lost_to_rounding:
  "alert_hours long_config = 5000000 \<and>
   tracked long_alerted ''7'' =
     Some \<lparr>last_message_time = 0, last_user = Some ''Ann'', campaign_name = ''Alpha''\<rparr> \<and>
   alerts long_alerted ''7'' = Some (1000000 * hour + 1) \<and>
   long_now - (1000000 * hour + 1) < alert_hours long_config * hour \<and>
   elapsed_hours (long_now - (1000000 * hour + 1)) = 5000000 \<and>
   map sent_for (snd (check_and_alert send_ok long_now long_config long_alerted)) = [''7'']"
proof -
  have a: "alert_hours long_config = 5000000"
    "tracked long_alerted ''7'' =
       Some \<lparr>last_message_time = 0, last_user = Some ''Ann'', campaign_name = ''Alpha''\<rparr>"
    "alerts long_alerted ''7'' = Some (1000000 * hour + 1)"
    by (simp_all add: long_config_def long_alerted_def alert_hours_def tracked_def alerts_def)
  have b: "long_now - (1000000 * hour + 1) < alert_hours long_config * hour"
    by (simp add: a long_now_def hour_def)
  have c: "elapsed_hours (long_now - (1000000 * hour + 1)) = 5000000"
    by code_simp
  have d: "\<not> hours_lt (long_now - 0) 5000000"
    by code_simp
  have e: "\<not> hours_lt (long_now - (1000000 * hour + 1)) 5000000"
    by (simp add: hours_lt_def c)
  have s: "str_int 7 = ''7''"
    by code_simp
  have "map (\<lambda>e. (sent_for e, sent_text e))
          (snd (check_and_alert send_ok long_now long_config long_alerted))
        = [(''7'', alert_text long_now \<lparr>pbp_topic_id = 7, chat_topic_id = 8, name = ''Alpha''\<rparr>
             \<lparr>last_message_time = 0, last_user = Some ''Ann'', campaign_name = ''Alpha''\<rparr>)]"
    using one_pair_alert [where now = long_now and t = 0 and ah = 5000000
       and al = "Some [''7'' \<mapsto> 1000000 * hour + 1]"
       and p = "\<lparr>pbp_topic_id = 7, chat_topic_id = 8, name = ''Alpha''\<rparr>" and send = send_ok
       and g = "- 100" and off = "Some 5" and lu = "Some ''Ann''" and c = "''Alpha''"] d e
    by (simp add: long_config_def long_alerted_def s)
  hence "map fst (map (\<lambda>e. (sent_for e, sent_text e))
          (snd (check_and_alert send_ok long_now long_config long_alerted))) = [''7'']"
    by (simp only: list.map fst_conv)
  hence f: "map sent_for (snd (check_and_alert send_ok long_now long_config long_alerted)) = [''7'']"
    by (simp add: comp_def)
  show ?thesis
    by (intro conjI a b c f)
qed

theorem cooldown_suppresses_alert_witness:
  "alerts example_alerted ''7'' = Some (18 * hour) \<and>
   \<bar>alert_hours example_config\<bar> \<le> 1000000 \<and>
   example_now - 18 * hour < alert_hours example_config * hour \<and>
   hours_lt (example_now - 18 * hour) (alert_hours example_config) \<and>
   tracked example_alerted ''7'' \<noteq> None \<and>
   ''7'' \<notin> sent_for ` set (snd (check_and_alert send_ok example_now example_config example_alerted)) \<and>
   alerts (fst (check_and_alert send_ok example_now example_config example_alerted)) ''7''
     = Some (18 * hour) \<and>
   ''7'' \<notin> sent_for ` set (snd (check_and_alert send_ok (example_now + hour) example_config
                     (fst (check_and_alert send_ok example_now example_config example_silent))))"
proof -
  have h: "alerts example_alerted ''7'' = Some (18 * hour)"
    "\<bar>alert_hours example_config\<bar> \<le> 1000000"
    "example_now - 18 * hour < alert_hours example_config * hour"
    "tracked example_alerted ''7'' \<noteq> None"
    "example_now + hour - example_now < alert_hours example_config * hour"
    by (simp_all add: example_alerted_def example_silent_def example_now_def example_config_def
          alerts_def tracked_def alert_hours_def hour_def)
  have l: "hours_lt (example_now - 18 * hour) (alert_hours example_config)"
    using h(2) h(3) by (simp only: hours_lt_exact)
  let ?e = "\<lparr>sent_for = ''7'', sent_chat = - 100, sent_thread = 8,
       sent_text = ''No new posts in Alpha PBP for 5h.'' @ [newline] @ ''Last post was from Ann.'',
       sent_ok = True\<rparr>"
  have e: "?e \<in> set (snd (check_and_alert send_ok example_now example_config example_silent))"
    by (simp add: example_silent_send_ok)
  from cooldown_suppresses_alert
    [where st = example_alerted and key = "''7''" and la = "18 * hour" and now = example_now
       and cfg = example_config and send = send_ok, THEN conjunct2, THEN conjunct1] h
  have a: "(\<forall>e \<in> set (snd (check_and_alert send_ok example_now example_config example_alerted)).
      sent_for e \<noteq> ''7'') \<and>
   alerts (fst (check_and_alert send_ok example_now example_config example_alerted)) ''7''
     = Some (18 * hour)" by blast
  from cooldown_suppresses_alert
    [where st = example_silent and key = "''7''" and now = example_now
       and cfg = example_config and send = send_ok and e = ?e
       and ?st2.0 = "fst (check_and_alert send_ok example_now example_config example_silent)"
       and ?now2.0 = "example_now + hour" and ?send2.0 = send_ok,
     THEN conjunct2, THEN conjunct2] h(2) h(5) e
  have b: "\<forall>e \<in> set (snd (check_and_alert send_ok (example_now + hour) example_config
                     (fst (check_and_alert send_ok example_now example_config example_silent)))).
      sent_for e \<noteq> ''7''" by simp
  from a have c1: "''7'' \<notin> sent_for ` set (snd (check_and_alert send_ok example_now
      example_config example_alerted))" by auto
  from a have a2: "alerts (fst (check_and_alert send_ok example_now example_config
      example_alerted)) ''7'' = Some (18 * hour)" by blast
  from b have c2: "''7'' \<notin> sent_for ` set (snd (check_and_alert send_ok (example_now + hour)
      example_config (fst (check_and_alert send_ok example_now example_config example_silent))))"
    by auto
  show ?thesis
    by (intro conjI h(1) h(2) h(3) l h(4) c1 a2 c2)
qed

section \<open>Frame conditions\<close>

lemma track_update_frame:
  assumes "track_update clk gid ids u k st = (e, st', k')"
  shows "last_alerts st' = last_alerts st \<and> offset st' = offset st"
proof (cases "passes_filters gid ids u")
  case False
  from track_update_filtered [OF this] assms show ?thesis by simp
next
  case True
  show ?thesis
  proof (cases "topics st")
    case None
    with assms show ?thesis
      by (auto simp: track_update_def Let_def split: option.splits if_splits)
  next
    case (Some tp)
    with assms show ?thesis
      by (auto simp: track_update_def Let_def split: option.splits if_splits)
  qed
qed

lemma process_loop_frame:
  "last_alerts (fst (snd (process_loop clk gid ids us k off st))) = last_alerts st \<and>
   offset (fst (snd (process_loop clk gid ids us k off st))) = offset st"
proof (induction us arbitrary: k off st)
  case Nil
  show ?case by simp
next
  case (Cons u us)
  obtain e st' k' where t: "track_update clk gid ids u k st = (e, st', k')"
    by (cases "track_update clk gid ids u k st") auto
  from track_update_frame [OF t] have f: "last_alerts st' = last_alerts st" "offset st' = offset st"
    by simp_all
  show ?case
  proof (cases e)
    case None
    with t Cons.IH [of k' "max off (update_id u + 1)" st'] f show ?thesis
      by (simp add: Let_def)
  next
    case (Some a)
    with t f show ?thesis by (simp add: Let_def)
  qed
qed

text \<open>
  C10. check\_and\_alert changes nothing of the state but \<^verbatim>\<open>last_alerts\<close>: the topics
  and the stored offset are the same before and after. process\_updates changes nothing but
  \<^verbatim>\<open>topics\<close>, also when it raises: \<^verbatim>\<open>last_alerts\<close> and the stored offset are
  the same, and the new offset is only returned. It is \<^verbatim>\<open>main\<close> that stores the
  returned offset, and only when there were updates.
\<close>

theorem frame_conditions:
  "topics (fst (check_and_alert send now cfg st)) = topics st \<and>
   offset (fst (check_and_alert send now cfg st)) = offset st \<and>
   last_alerts (fst (snd (process_updates clk k updates cfg st))) = last_alerts st \<and>
   offset (fst (snd (process_updates clk k updates cfg st))) = offset st \<and>
   (updates \<noteq> [] \<and> fst (process_updates clk 0 updates cfg st) = Inr r \<longrightarrow>
      (\<exists>st' log. main_body clk send updates cfg st = Inr (st', log) \<and> offset st' = Some r \<and>
         topics st' = topics (fst (snd (process_updates clk 0 updates cfg st))))) \<and>
   (updates = [] \<longrightarrow>
      (\<exists>st' log. main_body clk send updates cfg st = Inr (st', log) \<and> offset st' = offset st \<and>
         topics st' = topics st))"
proof (intro conjI impI)
  show "topics (fst (check_and_alert send now cfg st)) = topics st"
    and "offset (fst (check_and_alert send now cfg st)) = offset st"
    using check_and_alert_props [of send now cfg st] by simp_all
  show "last_alerts (fst (snd (process_updates clk k updates cfg st))) = last_alerts st"
    and "offset (fst (snd (process_updates clk k updates cfg st))) = offset st"
    unfolding process_updates_def using process_loop_frame by simp_all
next
  assume a: "updates \<noteq> [] \<and> fst (process_updates clk 0 updates cfg st) = Inr r"
  obtain res st1 k1 where p: "process_updates clk 0 updates cfg st = (res, st1, k1)"
    by (cases "process_updates clk 0 updates cfg st") auto
  with a have res: "res = Inr r" by simp
  obtain st' log where c: "check_and_alert send (clk k1) cfg (st1\<lparr>offset := Some r\<rparr>) = (st', log)"
    by (cases "check_and_alert send (clk k1) cfg (st1\<lparr>offset := Some r\<rparr>)") auto
  from check_and_alert_props [of send "clk k1" cfg "st1\<lparr>offset := Some r\<rparr>"] c
  have "offset st' = Some r" "topics st' = topics st1" by simp_all
  with a p res c
  show "\<exists>st' log. main_body clk send updates cfg st = Inr (st', log) \<and> offset st' = Some r \<and>
         topics st' = topics (fst (snd (process_updates clk 0 updates cfg st)))"
    by (simp add: main_body_def)
next
  assume a: "updates = []"
  obtain st' log where c: "check_and_alert send (clk 0) cfg st = (st', log)"
    by (cases "check_and_alert send (clk 0) cfg st") auto
  from check_and_alert_props [of send "clk 0" cfg st] c
  have "offset st' = offset st" "topics st' = topics st" by simp_all
  with a c show "\<exists>st' log. main_body clk send updates cfg st = Inr (st', log) \<and>
      offset st' = offset st \<and> topics st' = topics st"
    by (simp add: main_body_def)
qed

theorem frame_conditions_witness:
  "example_updates \<noteq> [] \<and>
   (\<exists>st' log. main_body example_clock send_ok example_updates example_config example_state
                = Inr (st', log) \<and> offset st' = Some 11)"
proof -
  have "fst (process_updates example_clock 0 example_updates example_config example_state) = Inr 11"
    by code_simp
  moreover have "example_updates \<noteq> []" by (simp add: example_updates_def)
  ultimately show ?thesis
    using frame_conditions [where updates = example_updates and clk = example_clock
        and cfg = example_config and st = example_state and r = 11 and send = send_ok]
    by blast
qed

section \<open>The text of an alert\<close>

lemma time_str_cases:
  "time_str h = (if 24 \<le> h then str_int (h div 24) @ ''d '' @ str_int (h mod 24) @ ''h''
                 else str_int h @ ''h'')"
proof -
  have "0 < h div 24 \<longleftrightarrow> 24 \<le> h"
    by (rule pos_imp_zdiv_pos_iff) simp
  thus ?thesis by (simp add: time_str_def Let_def)
qed

lemma time_str_floor:
  assumes "0 \<le> d" and "d < 1000000 * hour"
  shows "int_hours d = d div hour" and "time_str (int_hours d) = elapsed_component d"
proof -
  show h: "int_hours d = d div hour" using assms by (rule int_hours_floor)
  have "d div hour div 24 = d div (hour * 24)"
    by (simp add: zdiv_zmult2_eq hour_def)
  moreover have "0 < d div (hour * 24) \<longleftrightarrow> hour * 24 \<le> d"
    by (rule pos_imp_zdiv_pos_iff) (simp add: hour_def)
  ultimately have "0 < d div hour div 24 \<longleftrightarrow> 24 * hour \<le> d"
    by (simp add: mult.commute)
  then show "time_str (int_hours d) = elapsed_component d"
    by (simp add: h time_str_def elapsed_component_def Let_def)
qed

lemma sublist_mid: "sublist x (a @ x @ b)"
  by (auto simp: sublist_def)

lemma sublist_alert_message:
  "sublist ts (alert_message nm ts lu)" "sublist lu (alert_message nm ts lu)"
proof -
  have "alert_message nm ts lu = (''No new posts in '' @ nm @ '' PBP for '') @ ts @
     (''.'' @ [newline] @ ''Last post was from '' @ lu @ ''.'')"
    by (simp add: alert_message_def)
  then show "sublist ts (alert_message nm ts lu)" by (simp only: sublist_mid)
  have "alert_message nm ts lu = (''No new posts in '' @ nm @ '' PBP for '' @ ts @
     ''.'' @ [newline] @ ''Last post was from '') @ lu @ ''.''"
    by (simp add: alert_message_def)
  then show "sublist lu (alert_message nm ts lu)" by (simp only: sublist_mid)
qed

lemma digit_char_values:
  "digit_char 0 = CHR ''0''" "digit_char 1 = CHR ''1''" "digit_char 2 = CHR ''2''"
  "digit_char 3 = CHR ''3''" "digit_char 4 = CHR ''4''" "digit_char 5 = CHR ''5''"
  "digit_char 6 = CHR ''6''" "digit_char 7 = CHR ''7''" "digit_char 8 = CHR ''8''"
  "digit_char 9 = CHR ''9''"
  by code_simp+

lemmas digits_numeral = digits.simps [of "numeral k"] digits.simps [of 0] digits.simps [of 1]
  for k

lemma time_str_5: "time_str 5 = ''5h''"
  by code_simp

lemma time_str_30: "time_str 30 = ''1d 6h''"
  by code_simp

text \<open>The scenario of the specification: one pair, a threshold of four hours, no alert yet.\<close>

lemma first_alert_text:
  assumes "4 \<le> n" and "n < 1000000"
  shows "map sent_text (snd (check_and_alert send now
            \<lparr>group_id = g, alert_after_hours = Some 4, topic_pairs = [p]\<rparr>
            \<lparr>offset = off,
             topics = Some [str_int (pbp_topic_id p) \<mapsto>
                        \<lparr>last_message_time = now - n * hour, last_user = Some u,
                         campaign_name = c\<rparr>],
             last_alerts = None\<rparr>))
         = [alert_message (name p) (time_str n) u]"
proof -
  let ?ts = "\<lparr>last_message_time = now - n * hour, last_user = Some u, campaign_name = c\<rparr>"
  have "\<not> n * hour < 4 * hour" using assms by (simp add: hour_def)
  hence e: "\<not> hours_lt (now - (now - n * hour)) 4"
    by (simp add: hours_lt_exact)
  have "map (\<lambda>e. (sent_for e, sent_text e)) (snd (check_and_alert send now
            \<lparr>group_id = g, alert_after_hours = Some 4, topic_pairs = [p]\<rparr>
            \<lparr>offset = off, topics = Some [str_int (pbp_topic_id p) \<mapsto> ?ts],
             last_alerts = None\<rparr>))
         = [(str_int (pbp_topic_id p), alert_text now p ?ts)]"
    using e by (intro one_pair_alert) simp_all
  hence "map snd (map (\<lambda>e. (sent_for e, sent_text e)) (snd (check_and_alert send now
            \<lparr>group_id = g, alert_after_hours = Some 4, topic_pairs = [p]\<rparr>
            \<lparr>offset = off, topics = Some [str_int (pbp_topic_id p) \<mapsto> ?ts],
             last_alerts = None\<rparr>))) = [alert_text now p ?ts]"
    by (simp only: list.map snd_conv)
  hence m: "map sent_text (snd (check_and_alert send now
            \<lparr>group_id = g, alert_after_hours = Some 4, topic_pairs = [p]\<rparr>
            \<lparr>offset = off, topics = Some [str_int (pbp_topic_id p) \<mapsto> ?ts],
             last_alerts = None\<rparr>)) = [alert_text now p ?ts]"
    by (simp add: comp_def)
  have "n * hour < 1000000 * hour" "0 \<le> n * hour" using assms by (simp_all add: hour_def)
  hence "int_hours (n * hour) = n * hour div hour" by (intro int_hours_floor) simp_all
  hence "int_hours (n * hour) = n" by (simp add: hour_def)
  thus ?thesis
    by (simp add: m alert_text_def)
qed

text \<open>
  C9. The elapsed-time component of the alert is the floating-point quotient
  \<^verbatim>\<open>total_seconds() / 3600\<close> of the time since the last message, truncated towards zero
  by \<^verbatim>\<open>int\<close>, printed as days and hours when that whole number is 24 or more and as
  hours otherwise. For a time that is not negative and shorter than a million hours it is
  the time floored to whole hours, printed as days and hours from 24 hours on and as hours
  below. Every alert that check\_and\_alert sends has the text built from the name of the
  pair, that component, and the last poster (\<^verbatim>\<open>someone\<close> when unknown). With a
  threshold of four hours and no alert yet, a last message five hours old gives a text that
  contains \<^verbatim>\<open>5h\<close> and the name of the poster, and one thirty hours old a text that
  contains \<^verbatim>\<open>1d 6h\<close>.
\<close>

theorem alert_text_elapsed:
  "time_str (int_hours d) =
     (if 24 \<le> int_hours d
      then str_int (int_hours d div 24) @ ''d '' @ str_int (int_hours d mod 24) @ ''h''
      else str_int (int_hours d) @ ''h'') \<and>
   (0 \<le> d \<and> d < 1000000 * hour \<longrightarrow>
      int_hours d = d div hour \<and> time_str (int_hours d) = elapsed_component d) \<and>
   (e \<in> set (snd (check_and_alert send now cfg st)) \<longrightarrow>
      (\<exists>p \<in> set (topic_pairs cfg). \<exists>ts.
         tracked st (str_int (pbp_topic_id p)) = Some ts \<and>
         sent_text e =
           alert_message (name p) (time_str (int_hours (now - last_message_time ts)))
             (case last_user ts of None \<Rightarrow> ''someone'' | Some u \<Rightarrow> u))) \<and>
   map sent_text (snd (check_and_alert send now
       \<lparr>group_id = g, alert_after_hours = Some 4, topic_pairs = [p]\<rparr>
       \<lparr>offset = off,
        topics = Some [str_int (pbp_topic_id p) \<mapsto>
                   \<lparr>last_message_time = now - 5 * hour, last_user = Some u, campaign_name = c\<rparr>],
        last_alerts = None\<rparr>))
     = [alert_message (name p) ''5h'' u] \<and>
   sublist ''5h'' (alert_message (name p) ''5h'' u) \<and>
   sublist u (alert_message (name p) ''5h'' u) \<and>
   map sent_text (snd (check_and_alert send now
       \<lparr>group_id = g, alert_after_hours = Some 4, topic_pairs = [p]\<rparr>
       \<lparr>offset = off,
        topics = Some [str_int (pbp_topic_id p) \<mapsto>
                   \<lparr>last_message_time = now - 30 * hour, last_user = Some u, campaign_name = c\<rparr>],
        last_alerts = None\<rparr>))
     = [alert_message (name p) ''1d 6h'' u] \<and>
   sublist ''1d 6h'' (alert_message (name p) ''1d 6h'' u)"
proof (intro conjI impI)
  show "time_str (int_hours d) =
     (if 24 \<le> int_hours d
      then str_int (int_hours d div 24) @ ''d '' @ str_int (int_hours d mod 24) @ ''h''
      else str_int (int_hours d) @ ''h'')"
    by (rule time_str_cases)
next
  assume "0 \<le> d \<and> d < 1000000 * hour"
  hence "0 \<le> d" "d < 1000000 * hour" by simp_all
  then show "int_hours d = d div hour" and "time_str (int_hours d) = elapsed_component d"
    by (rule time_str_floor)+
next
  assume a: "e \<in> set (snd (check_and_alert send now cfg st))"
  with check_and_alert_props [of send now cfg st]
  obtain q ts ok where q: "q \<in> set (topic_pairs cfg)"
    and t: "tracked st (str_int (pbp_topic_id q)) = Some ts"
    and e: "e = alert_for now (group_id cfg) q ts ok"
    by blast
  from e
  have "sent_text e =
           alert_message (name q) (time_str (int_hours (now - last_message_time ts)))
             (case last_user ts of None \<Rightarrow> ''someone'' | Some u \<Rightarrow> u)"
    by (simp add: alert_for_def alert_text_def)
  with q t show "\<exists>p \<in> set (topic_pairs cfg). \<exists>ts.
         tracked st (str_int (pbp_topic_id p)) = Some ts \<and>
         sent_text e =
           alert_message (name p) (time_str (int_hours (now - last_message_time ts)))
             (case last_user ts of None \<Rightarrow> ''someone'' | Some u \<Rightarrow> u)"
    by blast
next
  show "map sent_text (snd (check_and_alert send now
       \<lparr>group_id = g, alert_after_hours = Some 4, topic_pairs = [p]\<rparr>
       \<lparr>offset = off,
        topics = Some [str_int (pbp_topic_id p) \<mapsto>
                   \<lparr>last_message_time = now - 5 * hour, last_user = Some u, campaign_name = c\<rparr>],
        last_alerts = None\<rparr>))
     = [alert_message (name p) ''5h'' u]"
    using first_alert_text [of 5 send now g p off u c] by (simp add: time_str_5)
  show "map sent_text (snd (check_and_alert send now
       \<lparr>group_id = g, alert_after_hours = Some 4, topic_pairs = [p]\<rparr>
       \<lparr>offset = off,
        topics = Some [str_int (pbp_topic_id p) \<mapsto>
                   \<lparr>last_message_time = now - 30 * hour, last_user = Some u, campaign_name = c\<rparr>],
        last_alerts = None\<rparr>))
     = [alert_message (name p) ''1d 6h'' u]"
    using first_alert_text [of 30 send now g p off u c] by (simp add: time_str_30)
qed (rule sublist_alert_message)+

text \<open>
  Where the component is not the floor. A last message one microsecond less than 5000000
  hours old: the quotient rounds to 5000000.0 and the alert says \<^verbatim>\<open>208333d 8h\<close>, where
  the floor is 4999999 hours, \<^verbatim>\<open>208333d 7h\<close>. And a threshold of minus six hours with a
  last message five and a half hours after the run: \<^verbatim>\<open>int\<close> truncates the quotient
  \<open>-5.5\<close> to \<open>-5\<close> and the alert says \<^verbatim>\<open>-5h\<close>, where the floor is \<open>-6\<close>.
\<close>

theorem alert_text_not_floor:
  "map sent_text (snd (check_and_alert send_ok long_now example_config long_silent)) =
     [alert_message ''Alpha'' ''208333d 8h'' ''Ann''] \<and>
   elapsed_component (long_now - (1000000 * hour + 1)) = ''208333d 7h'' \<and>
   (long_now - (1000000 * hour + 1)) div hour = 4999999 \<and>
   map sent_text (snd (check_and_alert send_ok 0 early_config early_state)) =
     [alert_message ''Alpha'' ''-5h'' ''Ann''] \<and>
   elapsed_component (0 - 19800000000) = ''-6h'' \<and>
   (0 - 19800000000) div hour = - 6"
proof -
  let ?p = "\<lparr>pbp_topic_id = 7, chat_topic_id = 8, name = ''Alpha''\<rparr>"
  have s: "str_int 7 = ''7''"
    by code_simp
  have d1: "\<not> hours_lt (long_now - (1000000 * hour + 1)) 4"
    by code_simp
  have "int_hours (long_now - (1000000 * hour + 1)) = 5000000"
    by code_simp
  hence i1: "time_str (int_hours (long_now - (1000000 * hour + 1))) = ''208333d 8h''"
    by (simp add: time_str_def Let_def str_int_def digits_numeral digit_char_values)
  have "map (\<lambda>e. (sent_for e, sent_text e))
          (snd (check_and_alert send_ok long_now example_config long_silent))
        = [(''7'', alert_text long_now ?p
             \<lparr>last_message_time = 1000000 * hour + 1, last_user = Some ''Ann'',
              campaign_name = ''Alpha''\<rparr>)]"
    using one_pair_alert [where now = long_now and t = "1000000 * hour + 1" and ah = 4
       and al = None and p = ?p and send = send_ok
       and g = "- 100" and off = "Some 5" and lu = "Some ''Ann''" and c = "''Alpha''"] d1
    by (simp add: example_config_def long_silent_def s)
  hence "map snd (map (\<lambda>e. (sent_for e, sent_text e))
          (snd (check_and_alert send_ok long_now example_config long_silent)))
        = [alert_message ''Alpha'' ''208333d 8h'' ''Ann'']"
    by (simp only: list.map snd_conv alert_text_def i1 topic_pair.simps topic_state.simps
          option.case)
  hence a: "map sent_text (snd (check_and_alert send_ok long_now example_config long_silent)) =
     [alert_message ''Alpha'' ''208333d 8h'' ''Ann'']"
    by (simp add: comp_def)
  have b: "elapsed_component (long_now - (1000000 * hour + 1)) = ''208333d 7h''"
    by (simp add: elapsed_component_def long_now_def hour_def Let_def str_int_def digits_numeral
          digit_char_values)
  have c: "(long_now - (1000000 * hour + 1)) div hour = 4999999"
    by (simp add: long_now_def hour_def)
  have d2: "\<not> hours_lt (0 - 19800000000) (- 6)"
    by code_simp
  have "int_hours (0 - 19800000000) = - 5"
    by code_simp
  hence i2: "time_str (int_hours (0 - 19800000000)) = ''-5h''"
    by (simp add: time_str_def Let_def str_int_def digits_numeral digit_char_values)
  have "map (\<lambda>e. (sent_for e, sent_text e))
          (snd (check_and_alert send_ok 0 early_config early_state))
        = [(''7'', alert_text 0 ?p
             \<lparr>last_message_time = 19800000000, last_user = Some ''Ann'',
              campaign_name = ''Alpha''\<rparr>)]"
    using one_pair_alert [where now = 0 and t = 19800000000 and ah = "- 6"
       and al = None and p = ?p and send = send_ok
       and g = "- 100" and off = "Some 5" and lu = "Some ''Ann''" and c = "''Alpha''"] d2
    by (simp add: early_config_def early_state_def s)
  hence "map snd (map (\<lambda>e. (sent_for e, sent_text e))
          (snd (check_and_alert send_ok 0 early_config early_state)))
        = [alert_message ''Alpha'' ''-5h'' ''Ann'']"
    by (simp only: list.map snd_conv alert_text_def i2 topic_pair.simps topic_state.simps
          option.case)
  hence d: "map sent_text (snd (check_and_alert send_ok 0 early_config early_state)) =
     [alert_message ''Alpha'' ''-5h'' ''Ann'']"
    by (simp add: comp_def)
  have e: "elapsed_component (0 - 19800000000) = ''-6h''"
    by (simp add: elapsed_component_def hour_def Let_def str_int_def digits_numeral
          digit_char_values)
  have f: "(0 - 19800000000) div hour = - 6"
    by (simp add: hour_def)
  show ?thesis
    by (intro conjI a b c d e f)
qed

theorem alert_text_elapsed_witness:
  "0 \<le> 5 * hour \<and> 5 * hour < 1000000 * hour \<and>
   map sent_text (snd (check_and_alert send_ok example_now example_config example_silent)) =
     [alert_message ''Alpha'' (elapsed_component (5 * hour)) ''Ann''] \<and>
   elapsed_component (5 * hour) = ''5h''"
proof -
  have d: "0 \<le> 5 * hour \<and> 5 * hour < 1000000 * hour"
    by (simp add: hour_def)
  note f = alert_text_elapsed [where d = "5 * hour", THEN conjunct2, THEN conjunct1, THEN mp, OF d]
  have g: "5 * hour div hour = 5"
    by (simp add: hour_def)
  have "elapsed_component (5 * hour) = time_str (int_hours (5 * hour))"
    by (rule f [THEN conjunct2, symmetric])
  also have "\<dots> = time_str 5"
    by (simp only: f [THEN conjunct1] g)
  also have "\<dots> = ''5h''"
    by (rule time_str_5)
  finally have c: "elapsed_component (5 * hour) = ''5h''" .
  have m: "map sent_text (snd (check_and_alert send_ok example_now example_config example_silent)) =
     [alert_message ''Alpha'' (elapsed_component (5 * hour)) ''Ann'']"
    by (simp add: example_silent_send_ok c alert_message_def)
  show ?thesis
    by (intro conjI d [THEN conjunct1] d [THEN conjunct2] m c)
qed

section \<open>Printing integers is injective\<close>

lemma digit_char_inj:
  assumes "d < 10" and "d' < 10" and "digit_char d = digit_char d'"
  shows "d = d'"
proof -
  from assms(3) have "of_char (digit_char d) = (of_char (digit_char d') :: nat)" by simp
  then have "(48 + d) mod 256 = (48 + d') mod 256"
    by (simp add: digit_char_def)
  with assms(1,2) show ?thesis by simp
qed

lemma digit_char_not_minus: "d < 10 \<Longrightarrow> digit_char d \<noteq> CHR ''-''"
proof
  assume "d < 10" and "digit_char d = CHR ''-''"
  then have "of_char (digit_char d) = (of_char CHR ''-'' :: nat)" by simp
  then have "(48 + d) mod 256 = 45" by (simp add: digit_char_def)
  with \<open>d < 10\<close> show False by simp
qed

lemma digits_snoc:
  "digits n = (if n < 10 then [] else digits (n div 10)) @ [digit_char (n mod 10)]"
  by (subst digits.simps) simp

lemma digits_not_Nil: "digits n \<noteq> []"
  by (subst digits.simps) simp

lemma digits_inj: "digits m = digits n \<Longrightarrow> m = n"
proof (induction m arbitrary: n rule: digits.induct)
  case (1 m)
  from "1.prems" have e: "(if m < 10 then [] else digits (m div 10)) @ [digit_char (m mod 10)]
      = (if n < 10 then [] else digits (n div 10)) @ [digit_char (n mod 10)]"
    using digits_snoc [of m] digits_snoc [of n] by simp
  then have l: "digit_char (m mod 10) = digit_char (n mod 10)"
    and b: "(if m < 10 then [] else digits (m div 10)) = (if n < 10 then [] else digits (n div 10))"
    by simp_all
  from l have md: "m mod 10 = n mod 10"
    by (rule digit_char_inj [rotated 2]) simp_all
  show ?case
  proof (cases "m < 10")
    case True
    with b have "n < 10" using digits_not_Nil [of "n div 10"] by (auto split: if_splits)
    with True md show ?thesis by simp
  next
    case False
    with b have n: "\<not> n < 10" using digits_not_Nil [of "m div 10"] by (auto split: if_splits)
    with False b have "digits (m div 10) = digits (n div 10)" by simp
    from "1.IH" [OF False this] have "m div 10 = n div 10" .
    with md show ?thesis by (metis div_mult_mod_eq)
  qed
qed

lemma digits_no_minus: "CHR ''-'' \<notin> set (digits n)"
proof (induction n rule: digits.induct)
  case (1 n)
  have "digit_char (n mod 10) \<noteq> CHR ''-''" by (rule digit_char_not_minus) simp
  with 1 show ?case
    by (subst digits_snoc) auto
qed

lemma str_int_inj: "str_int i = str_int j \<Longrightarrow> i = j"
proof -
  assume a: "str_int i = str_int j"
  have h: "\<And>n. hd (digits n) \<noteq> CHR ''-''"
    using digits_no_minus digits_not_Nil by (metis hd_in_set)
  show ?thesis
  proof (cases "i < 0")
    case True
    show ?thesis
    proof (cases "j < 0")
      case j: True
      with True a have "digits (nat (- i)) = digits (nat (- j))" by (simp add: str_int_def)
      then have "nat (- i) = nat (- j)" by (rule digits_inj)
      with True j show ?thesis by simp
    next
      case False
      with True a have "CHR ''-'' # digits (nat (- i)) = digits (nat j)" by (simp add: str_int_def)
      then have "hd (digits (nat j)) = CHR ''-''" by (metis list.sel(1))
      with h show ?thesis by simp
    qed
  next
    case False
    show ?thesis
    proof (cases "j < 0")
      case True
      with False a have "digits (nat i) = CHR ''-'' # digits (nat (- j))" by (simp add: str_int_def)
      then have "hd (digits (nat i)) = CHR ''-''" by simp
      with h show ?thesis by simp
    next
      case j: False
      with False a have "digits (nat i) = digits (nat j)" by (simp add: str_int_def)
      then have "nat i = nat j" by (rule digits_inj)
      with False j show ?thesis by simp
    qed
  qed
qed

lemma str_int_eq_iff [simp]: "str_int i = str_int j \<longleftrightarrow> i = j"
  using str_int_inj by blast

section \<open>What process\_updates records\<close>

lemma find_append_option:
  "List.find P (xs @ ys) = (case List.find P xs of Some x \<Rightarrow> Some x | None \<Rightarrow> List.find P ys)"
  by (induction xs) auto

lemma find_SomeD: "List.find P xs = Some x \<Longrightarrow> x \<in> set xs \<and> P x"
  by (induction xs) (auto split: if_splits)

lemma fold_upd_find:
  "fold (\<lambda>p m. m(f p \<mapsto> g p)) ps m0 k =
     (case List.find (\<lambda>p. f p = k) (rev ps) of Some p \<Rightarrow> Some (g p) | None \<Rightarrow> m0 k)"
proof (induction ps arbitrary: m0)
  case Nil
  show ?case by simp
next
  case (Cons p ps)
  let ?F = "\<lambda>p m. m(f p \<mapsto> g p)"
  have "fold ?F (p # ps) m0 k = fold ?F ps (m0(f p \<mapsto> g p)) k"
    by simp
  also have "\<dots> = (case List.find (\<lambda>p. f p = k) (rev ps) of
                      Some q \<Rightarrow> Some (g q) | None \<Rightarrow> (m0(f p \<mapsto> g p)) k)"
    by (rule Cons.IH)
  also have "\<dots> = (case List.find (\<lambda>p. f p = k) (rev (p # ps)) of
                      Some q \<Rightarrow> Some (g q) | None \<Rightarrow> m0 k)"
    by (simp add: find_append_option split: option.splits)
  finally show ?case .
qed

lemma pbp_topic_ids_find:
  "pbp_topic_ids cfg (str_int t) =
     map_option name (List.find (\<lambda>p. pbp_topic_id p = t) (rev (topic_pairs cfg)))"
  unfolding pbp_topic_ids_def
  by (simp add: fold_upd_find split: option.splits)

lemma track_update_passes:
  assumes "passes_filters gid ids u" and "message u = Some msg"
    and "message_thread_id msg = Some t" and "ids (str_int t) = Some c"
    and "topics st = Some tp"
  shows "track_update clk gid ids u k st =
           (None,
            st\<lparr>topics := Some (tp(str_int t \<mapsto>
                 \<lparr>last_message_time = clk k, last_user = Some (sender_name msg),
                  campaign_name = c\<rparr>))\<rparr>,
            Suc k)"
proof (cases "from_user msg")
  case None
  with assms show ?thesis
    by (simp add: passes_filters_def track_update_def sender_name_def no_user_def)
next
  case (Some fu)
  with assms show ?thesis
    by (simp add: passes_filters_def track_update_def sender_name_def split: option.splits)
qed

lemma track_update_ok:
  assumes "topics st \<noteq> None"
  shows "\<exists>st'. track_update clk gid ids u k st =
           (None, st', if passes_filters gid ids u then Suc k else k) \<and>
         topics st' \<noteq> None \<and>
         (\<forall>key. map_option str_int (thread_of u) \<noteq> Some key \<or> \<not> passes_filters gid ids u
              \<longrightarrow> tracked st' key = tracked st key)"
proof (cases "passes_filters gid ids u")
  case False
  with track_update_filtered [OF False] assms show ?thesis by simp
next
  case True
  then obtain msg t c where m: "message u = Some msg" "message_thread_id msg = Some t"
    "ids (str_int t) = Some c"
    by (auto simp: passes_filters_def split: option.splits)
  from assms obtain tp where tp: "topics st = Some tp" by auto
  from track_update_passes [OF True m tp] True m tp show ?thesis
    by (auto simp: thread_of_def tracked_def)
qed

lemma process_loop_ok:
  assumes "topics st \<noteq> None"
  shows "\<exists>off' st'. process_loop clk gid ids us k off st =
           (Inr off', st', k + length (filter (passes_filters gid ids) us)) \<and>
         topics st' \<noteq> None \<and>
         (\<forall>key. (\<forall>v \<in> set us. passes_filters gid ids v \<longrightarrow>
                    map_option str_int (thread_of v) \<noteq> Some key)
              \<longrightarrow> tracked st' key = tracked st key)"
  using assms
proof (induction us arbitrary: k off st)
  case Nil
  then show ?case by simp
next
  case (Cons u us)
  from track_update_ok [OF Cons.prems, of clk gid ids u k] obtain st1 where
    t: "track_update clk gid ids u k st =
           (None, st1, if passes_filters gid ids u then Suc k else k)"
    and n: "topics st1 \<noteq> None"
    and f: "\<forall>key. map_option str_int (thread_of u) \<noteq> Some key \<or> \<not> passes_filters gid ids u
              \<longrightarrow> tracked st1 key = tracked st key"
    by blast
  from Cons.IH [OF n, of "if passes_filters gid ids u then Suc k else k"
      "max off (update_id u + 1)"]
  obtain off' st' where
    p: "process_loop clk gid ids us (if passes_filters gid ids u then Suc k else k)
          (max off (update_id u + 1)) st1 =
        (Inr off', st',
         (if passes_filters gid ids u then Suc k else k) + length (filter (passes_filters gid ids) us))"
    and n': "topics st' \<noteq> None"
    and f': "\<forall>key. (\<forall>v \<in> set us. passes_filters gid ids v \<longrightarrow>
                    map_option str_int (thread_of v) \<noteq> Some key)
              \<longrightarrow> tracked st' key = tracked st1 key"
    by blast
  have "process_loop clk gid ids (u # us) k off st =
           (Inr off', st', k + length (filter (passes_filters gid ids) (u # us)))"
    using t p by (simp add: Let_def)
  moreover have "\<forall>key. (\<forall>v \<in> set (u # us). passes_filters gid ids v \<longrightarrow>
                    map_option str_int (thread_of v) \<noteq> Some key)
              \<longrightarrow> tracked st' key = tracked st key"
    using f f' by auto
  ultimately show ?case using n' by blast
qed

lemma process_loop_append:
  "process_loop clk gid ids (xs @ ys) k off st =
     (case process_loop clk gid ids xs k off st of
        (Inl e, st', k') \<Rightarrow> (Inl e, st', k')
      | (Inr off', st', k') \<Rightarrow> process_loop clk gid ids ys k' off' st')"
proof (induction xs arbitrary: k off st)
  case Nil
  show ?case by simp
next
  case (Cons x xs)
  obtain e st1 k1 where t: "track_update clk gid ids x k st = (e, st1, k1)"
    by (cases "track_update clk gid ids x k st") auto
  show ?case
  proof (cases e)
    case None
    with t Cons.IH [of k1 "max off (update_id x + 1)" st1] show ?thesis
      by (simp add: Let_def)
  next
    case (Some a)
    with t show ?thesis by (simp add: Let_def)
  qed
qed


text \<open>
  C2, as the code has it. When the state has a \<^verbatim>\<open>topics\<close> mapping and an update of
  the batch passes the filters, with no later update of the batch passing them for the same
  thread, the record of the topic after process\_updates is made of three values only,
  whatever the record was before: the reading of the clock at the moment the update is
  processed (\<^verbatim>\<open>datetime.now\<close>, read once for each update that passes), the first
  name of the sender (\<^verbatim>\<open>Someone\<close> when there is none), and the name of the last
  configured pair with that topic id. The last passing update in delivery order decides.
\<close>

theorem last_passing_update_recorded:
  assumes "topics st \<noteq> None"
    and "passes_filters (group_id cfg) (pbp_topic_ids cfg) u"
    and "message u = Some msg" and "message_thread_id msg = Some t"
    and "\<forall>v \<in> set post. passes_filters (group_id cfg) (pbp_topic_ids cfg) v \<longrightarrow>
           thread_of v \<noteq> Some t"
  shows "\<exists>p \<in> set (topic_pairs cfg). pbp_topic_id p = t \<and>
           List.find (\<lambda>p. pbp_topic_id p = t) (rev (topic_pairs cfg)) = Some p \<and>
           tracked (fst (snd (process_updates clk k (pre @ u # post) cfg st))) (str_int t) =
             Some \<lparr>last_message_time =
                     clk (k + length (filter (passes_filters (group_id cfg) (pbp_topic_ids cfg)) pre)),
                   last_user = Some (sender_name msg),
                   campaign_name = name p\<rparr>"
proof -
  let ?gid = "group_id cfg" and ?ids = "pbp_topic_ids cfg"
  let ?off = "case offset st of None \<Rightarrow> 0 | Some n \<Rightarrow> n"
  let ?k1 = "k + length (filter (passes_filters ?gid ?ids) pre)"
  from assms(2,3,4) obtain c where c: "?ids (str_int t) = Some c"
    by (auto simp: passes_filters_def split: option.splits)
  with pbp_topic_ids_find [of cfg t]
  have "map_option name (List.find (\<lambda>p. pbp_topic_id p = t) (rev (topic_pairs cfg))) = Some c"
    by simp
  then obtain p where
    p: "List.find (\<lambda>p. pbp_topic_id p = t) (rev (topic_pairs cfg)) = Some p" and cn: "c = name p"
    by (cases "List.find (\<lambda>p. pbp_topic_id p = t) (rev (topic_pairs cfg))") auto
  from find_SomeD [OF p] have pin: "p \<in> set (topic_pairs cfg)" and pt: "pbp_topic_id p = t"
    by simp_all
  from process_loop_ok [OF assms(1), of clk ?gid ?ids pre k ?off]
  obtain off1 st1 where
    l1: "process_loop clk ?gid ?ids pre k ?off st = (Inr off1, st1, ?k1)"
    and n1: "topics st1 \<noteq> None" by blast
  from n1 obtain tp1 where tp1: "topics st1 = Some tp1" by auto
  let ?entry = "\<lparr>last_message_time = clk ?k1, last_user = Some (sender_name msg),
                  campaign_name = c\<rparr>"
  let ?st2 = "st1\<lparr>topics := Some (tp1(str_int t \<mapsto> ?entry))\<rparr>"
  have t2: "track_update clk ?gid ?ids u ?k1 st1 = (None, ?st2, Suc ?k1)"
    by (rule track_update_passes [OF assms(2,3,4) c tp1])
  have n2: "topics ?st2 \<noteq> None" by simp
  from process_loop_ok [OF n2, of clk ?gid ?ids post "Suc ?k1" "max off1 (update_id u + 1)"]
  obtain off3 st3 k3 where
    l3: "process_loop clk ?gid ?ids post (Suc ?k1) (max off1 (update_id u + 1)) ?st2 =
           (Inr off3, st3, k3)"
    and f3: "\<forall>key. (\<forall>v \<in> set post. passes_filters ?gid ?ids v \<longrightarrow>
                    map_option str_int (thread_of v) \<noteq> Some key)
              \<longrightarrow> tracked st3 key = tracked ?st2 key"
    by blast
  have "\<forall>v \<in> set post. passes_filters ?gid ?ids v \<longrightarrow>
          map_option str_int (thread_of v) \<noteq> Some (str_int t)"
    using assms(5) by auto
  with f3 have "tracked st3 (str_int t) = tracked ?st2 (str_int t)" by blast
  then have r: "tracked st3 (str_int t) = Some ?entry" by (simp add: tracked_def)
  have "process_loop clk ?gid ?ids (pre @ u # post) k ?off st = (Inr off3, st3, k3)"
    using l1 t2 l3 by (simp add: process_loop_append Let_def)
  then have "fst (snd (process_updates clk k (pre @ u # post) cfg st)) = st3"
    by (simp add: process_updates_def)
  with r cn pin pt p show ?thesis by auto
qed

text \<open>The three example updates: the record of topic 7 holds the clock's reading.\<close>

lemma example_tracked:
  "tracked (fst (snd (process_updates example_clock 0 example_updates example_config
      example_state))) ''7'' =
     Some \<lparr>last_message_time = 5000, last_user = Some ''Ann'', campaign_name = ''Alpha''\<rparr>"
  by code_simp

text \<open>
  The claim C2 as stated fails: the message of the update carries the time 100, and the
  time recorded for the topic is the clock's 5000.
\<close>

theorem process_updates_records_clock:
  "passes_filters (group_id example_config) (pbp_topic_ids example_config)
     \<lparr>update_id = 10, message = Some example_message\<rparr> \<and>
   date example_message = Some 100 \<and>
   map_option last_message_time
     (tracked (fst (snd (process_updates example_clock 0
        [\<lparr>update_id = 10, message = Some example_message\<rparr>] example_config example_state))) ''7'')
     = Some 5000 \<and>
   map_option last_message_time
     (tracked (fst (snd (process_updates example_clock 0
        [\<lparr>update_id = 10, message = Some example_message\<rparr>] example_config example_state))) ''7'')
     \<noteq> date example_message"
  by code_simp


theorem last_passing_update_recorded_witness:
  "topics example_state \<noteq> None \<and>
   passes_filters (group_id example_config) (pbp_topic_ids example_config)
     \<lparr>update_id = 10, message = Some example_message\<rparr> \<and>
   (\<exists>p \<in> set (topic_pairs example_config). pbp_topic_id p = 7 \<and>
      List.find (\<lambda>p. pbp_topic_id p = 7) (rev (topic_pairs example_config)) = Some p \<and>
      tracked (fst (snd (process_updates example_clock 0
          ([\<lparr>update_id = 9, message = None\<rparr>] @
           \<lparr>update_id = 10, message = Some example_message\<rparr> #
           [\<lparr>update_id = 8, message = Some (example_message\<lparr>chat_id := Some 3\<rparr>)\<rparr>])
          example_config example_state))) (str_int 7) =
        Some \<lparr>last_message_time =
                example_clock (0 + length (filter
                   (passes_filters (group_id example_config) (pbp_topic_ids example_config))
                   [\<lparr>update_id = 9, message = None\<rparr>])),
              last_user = Some (sender_name example_message),
              campaign_name = name p\<rparr>)"
proof -
  have h1: "topics example_state \<noteq> None"
    by (simp add: example_state_def)
  have h2: "passes_filters (group_id example_config) (pbp_topic_ids example_config)
     \<lparr>update_id = 10, message = Some example_message\<rparr>"
    by code_simp
  have h3: "message \<lparr>update_id = 10, message = Some example_message\<rparr> = Some example_message"
    by simp
  have h4: "message_thread_id example_message = Some 7"
    by (simp add: example_message_def)
  have "\<not> passes_filters (group_id example_config) (pbp_topic_ids example_config)
     \<lparr>update_id = 8, message = Some (example_message\<lparr>chat_id := Some 3\<rparr>)\<rparr>"
    by code_simp
  then have h5: "\<forall>v \<in> set [\<lparr>update_id = 8, message = Some (example_message\<lparr>chat_id := Some 3\<rparr>)\<rparr>].
     passes_filters (group_id example_config) (pbp_topic_ids example_config) v \<longrightarrow>
       thread_of v \<noteq> Some 7"
    by simp
  show ?thesis
    by (intro conjI h1 h2 last_passing_update_recorded [OF h1 h2 h3 h4 h5])
qed

section \<open>The importer: a dry run and the recorded ids\<close>

text \<open>
  C4. The directory of the campaign records message 1 as imported, and the export holds
  message 1 alone. A dry run reads no tracking file: it counts the message as new and
  announces that it would import it. The real run on the same files imports nothing.
\<close>

theorem dry_run_ignores_imported_ids:
  "get_imported_ids one_imported (sanitize_dirname ''TestCampaign'') = {''1''} \<and>
   msg_id (example_msg 1 ''2025-06-15T10:00:00'') = ''1'' \<and>
   fst (import_messages example_import_config [example_msg 1 ''2025-06-15T10:00:00''] True
          one_imported) = Inr [(''TestCampaign'', 1)] \<and>
   fst (import_messages example_import_config [example_msg 1 ''2025-06-15T10:00:00''] False
          one_imported) = Inr [(''TestCampaign'', 0)]"
  by code_simp

end
